theory Spec2Isabelle
  imports Complex_Main "HOL-Library.Word" "HOL-Library.Stream"
begin

section \<open>The snake game of \<open>src/main.go\<close>\<close>

text \<open>
  The program is a single Go file. Its state is four globals (\<open>frame\<close>, \<open>apple\<close>,
  \<open>snakes\<close>, \<open>score\<close>); the host calls \<open>boot\<close> once and \<open>update\<close> once per frame.
  The embedding follows the file top to bottom. Mutation is explicit state passing, the
  random number generator of the host is a stream of 32-bit words that is consumed in
  the order of the calls of \<open>firefly.GetRandom\<close>, the pad of a peer is an input of the
  tick, and the one loop that has no bound (the apple relocation of \<open>TryEat\<close>) is a
  partial function into \<open>option\<close>.

  Go's \<open>int\<close> is modelled by \<open>int\<close>: no addition of the program comes near the
  machine range except the frame counter and the score, which only ever grow by one.
\<close>

subsection \<open>Constants (lines 11-20)\<close>

definition period :: int where "period = 10"
definition snakeWidth :: int where "snakeWidth = 7"
definition segmentLen :: int where "segmentLen = 14"
definition maxDirDiff :: rat where "maxDirDiff = 1 / 10"
definition HungerPeriod :: int where "HungerPeriod = 6 * 60"
definition IFrames :: int where "IFrames = 60"
definition appleRadius :: int where "appleRadius = 5"
definition appleDiameter :: int where "appleDiameter = appleRadius * 2"

text \<open>Go's integer \<open>/\<close> and \<open>%\<close> truncate towards zero.\<close>

definition quo :: "int \<Rightarrow> int \<Rightarrow> int" where
  "quo a b = (if (a < 0) = (b < 0) then \<bar>a\<bar> div \<bar>b\<bar> else - (\<bar>a\<bar> div \<bar>b\<bar>))"

definition rem :: "int \<Rightarrow> int \<Rightarrow> int" where
  "rem a b = a - b * quo a b"

subsection \<open>What the program imports\<close>

text \<open>
  The Firefly SDK (\<open>firefly.Width\<close>, \<open>firefly.Height\<close>) and the \<open>tinymath\<close> package
  are not part of the repository, and \<open>float32\<close> arithmetic has no counterpart in HOL.
  Both are parameters of the model: a record of the screen size, the \<open>tinymath\<close>
  functions and constants the program calls, and the \<open>float32\<close> operations it uses,
  over an arbitrary carrier \<open>'f\<close>. Every function below that touches one of them takes
  the record as its first argument.
\<close>

type_synonym u32 = "32 word"

record 'f platform =
  Width :: int \<comment> \<open>\<open>firefly.Width\<close>\<close>
  Height :: int \<comment> \<open>\<open>firefly.Height\<close>\<close>
  Cos :: "'f \<Rightarrow> 'f" \<comment> \<open>\<open>tinymath.Cos\<close>\<close>
  Sin :: "'f \<Rightarrow> 'f" \<comment> \<open>\<open>tinymath.Sin\<close>\<close>
  Hypot :: "'f \<Rightarrow> 'f \<Rightarrow> 'f" \<comment> \<open>\<open>tinymath.Hypot\<close>\<close>
  IsNaN :: "'f \<Rightarrow> bool" \<comment> \<open>\<open>tinymath.IsNaN\<close>\<close>
  Pi :: 'f \<comment> \<open>\<open>tinymath.Pi\<close>\<close>
  Tau :: 'f \<comment> \<open>\<open>tinymath.Tau\<close>\<close>
  f32_const :: "rat \<Rightarrow> 'f" \<comment> \<open>a numeric constant of the source, as a \<open>float32\<close>\<close>
  f32_of_int :: "int \<Rightarrow> 'f" \<comment> \<open>the conversion \<open>float32(n)\<close>\<close>
  f32_to_int :: "'f \<Rightarrow> int" \<comment> \<open>the conversion \<open>int(x)\<close>\<close>
  f32_add :: "'f \<Rightarrow> 'f \<Rightarrow> 'f"
  f32_sub :: "'f \<Rightarrow> 'f \<Rightarrow> 'f"
  f32_mul :: "'f \<Rightarrow> 'f \<Rightarrow> 'f"
  f32_div :: "'f \<Rightarrow> 'f \<Rightarrow> 'f"
  f32_neg :: "'f \<Rightarrow> 'f"
  f32_lt :: "'f \<Rightarrow> 'f \<Rightarrow> bool" \<comment> \<open>\<open>x < y\<close>; \<open>x > y\<close> is \<open>f32_lt y x\<close>\<close>

subsection \<open>Data (lines 23-73, 386-389, 408-410, 442-446)\<close>

record Point =
  X :: int
  Y :: int

datatype State = Moving | Eating | Growing

text \<open>
  A segment holds its start point and a pointer to the next segment; \<open>nil\<close> is
  \<open>None\<close>. The program builds chains only in \<open>NewSnake\<close> and in the growing branch of
  \<open>shift\<close>, each time from fresh segments, so a chain is never shared or cyclic.
\<close>

datatype Segment = Segment (Head: Point) (Tail: "Segment option")

text \<open>
  The field \<open>Head\<close> of a snake is called \<open>SnakeHead\<close> here, since \<open>Head\<close> is the field
  of a segment. It is never \<open>nil\<close> in a snake of the program.
\<close>

record 'f Snake =
  Peer :: "8 word"
  SnakeHead :: Segment
  Mouth :: Point
  Eye :: Point
  BlinkCounter :: int
  BlinkMaxTime :: int
  Dir :: 'f
  state :: State

record BBox =
  left :: Point
  right :: Point

record Apple =
  Pos :: Point

record Score =
  val :: int
  iframes :: int
  hunger :: int

text \<open>The globals of the program, with the random numbers still to come.\<close>

record 'f Game =
  frame :: int
  apple :: Apple
  snakes :: "'f Snake list"
  score :: Score
  random :: "u32 stream"

subsection \<open>Toroidal geometry (lines 346-383)\<close>

definition normalizeX :: "'f platform \<Rightarrow> int \<Rightarrow> int" where
  "normalizeX P x =
     (if x \<ge> Width P then x - Width P else if x < 0 then x + Width P else x)"

definition normalizeY :: "'f platform \<Rightarrow> int \<Rightarrow> int" where
  "normalizeY P y =
     (if y \<ge> Height P then y - Height P else if y < 0 then y + Height P else y)"

definition denormalizeX :: "'f platform \<Rightarrow> int \<Rightarrow> int \<Rightarrow> int \<times> int" where
  "denormalizeX P start stop =
     (if start - stop > 30 then (start, stop + Width P)
      else if stop - start > 30 then (start + Width P, stop)
      else (start, stop))"

definition denormalizeY :: "'f platform \<Rightarrow> int \<Rightarrow> int \<Rightarrow> int \<times> int" where
  "denormalizeY P start stop =
     (if start - stop > 30 then (start, stop + Height P)
      else if stop - start > 30 then (start + Height P, stop)
      else (start, stop))"

subsection \<open>Bounding boxes (lines 392-405)\<close>

text \<open>
  Modelled from the spec: \<open>Point.ComponentMin\<close> and \<open>Point.ComponentMax\<close> are methods
  of the SDK; with them \<open>NewBBox\<close> builds the "axis-aligned bounding box" of its two
  points, so they are the componentwise minimum and maximum.
\<close>

definition ComponentMin :: "Point \<Rightarrow> Point \<Rightarrow> Point" where
  "ComponentMin p q = \<lparr>X = min (X p) (X q), Y = min (Y p) (Y q)\<rparr>"

definition ComponentMax :: "Point \<Rightarrow> Point \<Rightarrow> Point" where
  "ComponentMax p q = \<lparr>X = max (X p) (X q), Y = max (Y p) (Y q)\<rparr>"

definition NewBBox :: "Point \<Rightarrow> Point \<Rightarrow> int \<Rightarrow> BBox" where
  "NewBBox start stop margin =
     (let l = ComponentMin start stop;
          r = ComponentMax start stop
      in \<lparr>left = \<lparr>X = X l - margin, Y = Y l - margin\<rparr>,
          right = \<lparr>X = X r + margin, Y = Y r + margin\<rparr>\<rparr>)"

definition Contains :: "BBox \<Rightarrow> Point \<Rightarrow> bool" where
  "Contains b p =
     (\<not> (X p < X (left b) \<or> X p > X (right b) \<or> Y p < Y (left b) \<or> Y p > Y (right b)))"

subsection \<open>Collision test (lines 208-224)\<close>

text \<open>
  The box of one pair of neighbouring segment points, as the body of the loop of
  \<open>Collides\<close> builds it: both axes denormalised, then \<open>NewBBox\<close> with margin
  \<open>snakeWidth/2\<close>.
\<close>

definition pairBBox :: "'f platform \<Rightarrow> Point \<Rightarrow> Point \<Rightarrow> BBox" where
  "pairBBox P ph pt =
     (let (phx, ptx) = denormalizeX P (X ph) (X pt);
          (phy, pty) = denormalizeY P (Y ph) (Y pt)
      in NewBBox \<lparr>X = phx, Y = phy\<rparr> \<lparr>X = ptx, Y = pty\<rparr> (quo snakeWidth 2))"

fun CollidesLoop :: "'f platform \<Rightarrow> Segment option \<Rightarrow> Point \<Rightarrow> bool" where
  "CollidesLoop P None p = False"
| "CollidesLoop P (Some (Segment ph t)) p =
     (case t of
        None \<Rightarrow> CollidesLoop P t p
      | Some nxt \<Rightarrow>
          if Contains (pairBBox P ph (Head nxt)) p then True
          else CollidesLoop P t p)"

definition Collides :: "'f platform \<Rightarrow> 'f Snake \<Rightarrow> Point \<Rightarrow> bool" where
  "Collides P s p = CollidesLoop P (Tail (SnakeHead s)) p"

subsection \<open>Score (lines 449-487)\<close>

definition NewScore :: Score where
  "NewScore = \<lparr>val = 0, iframes = IFrames, hunger = HungerPeriod\<rparr>"

definition Inc :: "Score \<Rightarrow> Score" where
  "Inc s = s\<lparr>hunger := HungerPeriod, val := val s + 1\<rparr>"

definition Dec :: "Score \<Rightarrow> Score" where
  "Dec s =
     (if iframes s > 0 then s
      else let s1 = s\<lparr>iframes := IFrames\<rparr>
           in if val s1 > 0 then s1\<lparr>val := val s1 - (quo (val s1) 5 + 1)\<rparr> else s1)"

definition Score_Update :: "'f platform \<Rightarrow> 'f Snake \<Rightarrow> Score \<Rightarrow> Score" where
  "Score_Update P snake s =
     (let s1 = (if iframes s > 0 then s\<lparr>iframes := iframes s - 1\<rparr> else s);
          s2 = (if hunger s1 = 0 then (Dec s1)\<lparr>hunger := HungerPeriod\<rparr>
                else s1\<lparr>hunger := hunger s1 - 1\<rparr>)
      in if Collides P snake (Mouth snake) then Dec s2 else s2)"

subsection \<open>Snakes (lines 76-205)\<close>

text \<open>The fields that \<open>NewSnake\<close> leaves out hold Go's zero values.\<close>

definition NewSnake :: "'f platform \<Rightarrow> 8 word \<Rightarrow> 'f Snake" where
  "NewSnake P peer =
     (let shift = 10 + snakeWidth + uint peer * 20
      in \<lparr>Peer = peer,
          SnakeHead =
            Segment \<lparr>X = segmentLen * 2, Y = shift\<rparr>
              (Some (Segment \<lparr>X = segmentLen, Y = shift\<rparr> None)),
          Mouth = \<lparr>X = 0, Y = 0\<rparr>,
          Eye = \<lparr>X = 0, Y = 0\<rparr>,
          BlinkCounter = 0,
          BlinkMaxTime = 0,
          Dir = f32_const P 0,
          state = Moving\<rparr>)"

text \<open>
  \<open>setDir\<close> receives the pad; the model receives \<open>pad.Azimuth().Radians()\<close>, the only
  thing \<open>setDir\<close> reads from it. The comparisons and additions are those of
  \<open>float32\<close>, which round: they stay parameters of the platform.
\<close>

definition setDir :: "'f platform \<Rightarrow> 'f \<Rightarrow> 'f Snake \<Rightarrow> 'f Snake" where
  "setDir P azimuth s =
     (let dirDiff = f32_sub P azimuth (Dir s)
      in if IsNaN P dirDiff then s
         else
           let dirDiff1 =
                 (if f32_lt P (Pi P) dirDiff then f32_const P (- maxDirDiff)
                  else if f32_lt P dirDiff (f32_neg P (Pi P)) then f32_const P maxDirDiff
                  else dirDiff);
               d1 =
                 (if f32_lt P (f32_const P maxDirDiff) dirDiff1
                  then f32_add P (Dir s) (f32_const P maxDirDiff)
                  else if f32_lt P dirDiff1 (f32_const P (- maxDirDiff))
                  then f32_sub P (Dir s) (f32_const P maxDirDiff)
                  else f32_add P (Dir s) dirDiff1);
               d2 = (if f32_lt P d1 (f32_const P 0) then f32_add P d1 (Tau P) else d1);
               d3 = (if f32_lt P (Tau P) d2 then f32_sub P d2 (Tau P) else d2)
           in s\<lparr>Dir := d3\<rparr>)"

definition updateEye ::
  "'f platform \<Rightarrow> Point \<Rightarrow> 'f Snake \<Rightarrow> u32 stream \<Rightarrow> 'f Snake \<times> u32 stream" where
  "updateEye P applePos s rnd =
     (let lookX = f32_of_int P (X applePos - X (Mouth s));
          lookY = f32_of_int P (Y applePos - Y (Mouth s));
          lookLen = Hypot P lookX lookY;
          dX = f32_div P (f32_mul P lookX (f32_const P 3)) lookLen;
          dY = f32_div P (f32_mul P lookY (f32_const P 3)) lookLen;
          s1 = s\<lparr>Eye := \<lparr>X = X (Mouth s) + f32_to_int P dX,
                           Y = Y (Mouth s) + f32_to_int P dY\<rparr>\<rparr>;
          s2 = s1\<lparr>BlinkCounter := BlinkCounter s1 + uint (shd rnd mod 5)\<rparr>;
          rnd1 = stl rnd
      in if BlinkCounter s2 > BlinkMaxTime s2
         then (s2\<lparr>BlinkCounter := 0, BlinkMaxTime := uint (100 + shd rnd1 mod 100)\<rparr>,
               stl rnd1)
         else (s2, rnd1))"

text \<open>
  \<open>Snake.shift\<close>, first its closing loop: every segment takes the point handed down
  to it and hands its old point on.
\<close>

fun shiftLoop :: "Point \<Rightarrow> Segment \<Rightarrow> Segment" where
  "shiftLoop head (Segment oldHead None) = Segment head None"
| "shiftLoop head (Segment oldHead (Some t)) = Segment head (Some (shiftLoop oldHead t))"

definition Snake_shift :: "'f platform \<Rightarrow> 'f Snake \<Rightarrow> 'f Snake" where
  "Snake_shift P s =
     (let shiftX = f32_mul P (Cos P (Dir s)) (f32_const P (of_int segmentLen));
          shiftY = f32_mul P (Sin P (Dir s)) (f32_const P (of_int segmentLen));
          head = \<lparr>X = normalizeX P (X (Head (SnakeHead s)) + f32_to_int P shiftX),
                  Y = normalizeY P (Y (Head (SnakeHead s)) - f32_to_int P shiftY)\<rparr>
      in if state s = Growing
         then s\<lparr>SnakeHead := Segment head (Some (SnakeHead s)), state := Moving\<rparr>
         else
           let s1 = (if state s = Eating then s\<lparr>state := Growing\<rparr> else s)
           in s1\<lparr>SnakeHead := shiftLoop head (SnakeHead s1)\<rparr>)"

definition updateMouth :: "'f platform \<Rightarrow> int \<Rightarrow> 'f Snake \<Rightarrow> 'f Snake" where
  "updateMouth P frm s =
     (let neck = Head (SnakeHead s);
          headLen = f32_div P (f32_mul P (f32_const P (of_int segmentLen)) (f32_of_int P frm))
                      (f32_const P (of_int period));
          shiftX = f32_mul P (Cos P (Dir s)) headLen;
          shiftY = f32_mul P (Sin P (Dir s)) headLen
      in s\<lparr>Mouth := \<lparr>X = normalizeX P (X neck + f32_to_int P shiftX),
                       Y = normalizeY P (Y neck - f32_to_int P shiftY)\<rparr>\<rparr>)"

text \<open>
  \<open>Snake.Update\<close>. The pad of the snake's peer is \<open>None\<close> when it is not pressed, and
  otherwise the azimuth it reports.
\<close>

definition Snake_Update ::
  "'f platform \<Rightarrow> int \<Rightarrow> Apple \<Rightarrow> 'f option \<Rightarrow> 'f Snake \<Rightarrow> u32 stream
     \<Rightarrow> 'f Snake \<times> u32 stream" where
  "Snake_Update P frm a pad s rnd =
     (let frm1 = rem frm period;
          s1 = (case pad of Some azimuth \<Rightarrow> setDir P azimuth s | None \<Rightarrow> s);
          s2 = (if frm1 = 0 then Snake_shift P s1 else s1);
          s3 = updateMouth P frm1 s2
      in updateEye P (Pos a) s3 rnd)"

subsection \<open>The apple (lines 413-425)\<close>

text \<open>
  \<open>Apple.Move\<close> overwrites the whole position, so it needs the random numbers only.
  The modulus is a constant of type \<open>uint32\<close>.
\<close>

definition Move :: "'f platform \<Rightarrow> u32 stream \<Rightarrow> Apple \<times> u32 stream" where
  "Move P rnd =
     (let x = uint (shd rnd mod word_of_int (Width P - appleRadius * 2)) + appleRadius;
          rnd1 = stl rnd;
          y = uint (shd rnd1 mod word_of_int (Height P - appleRadius * 2)) + appleRadius
      in (\<lparr>Pos = \<lparr>X = x, Y = y\<rparr>\<rparr>, stl rnd1))"

definition NewApple :: "'f platform \<Rightarrow> u32 stream \<Rightarrow> Apple \<times> u32 stream" where
  "NewApple P rnd = Move P rnd"

subsection \<open>Eating (lines 192-205)\<close>

text \<open>
  The loop \<open>for s.Collides(apple.Pos) { apple.Move() }\<close> has no bound: it is a partial
  function, \<open>None\<close> when it runs forever.
\<close>

partial_function (option) relocate ::
  "'f platform \<Rightarrow> 'f Snake \<Rightarrow> Apple \<times> u32 stream \<Rightarrow> (Apple \<times> u32 stream) option" where
  "relocate P s ar =
     (if Collides P s (Pos (fst ar)) then relocate P s (Move P (snd ar)) else Some ar)"

definition TryEat ::
  "'f platform \<Rightarrow> 'f Snake \<Rightarrow> Apple \<Rightarrow> Score \<Rightarrow> u32 stream
     \<Rightarrow> ('f Snake \<times> Apple \<times> Score \<times> u32 stream) option" where
  "TryEat P s a sc rnd =
     (let x = X (Pos a) - X (Mouth s);
          y = Y (Pos a) - Y (Mouth s);
          distance = Hypot P (f32_of_int P x) (f32_of_int P y)
      in if f32_lt P (f32_const P (of_int (appleRadius + quo snakeWidth 2))) distance
         then Some (s, a, sc, rnd)
         else
           let s1 = s\<lparr>state := Eating\<rparr>;
               ar = Move P rnd;
               sc1 = Inc sc
           in case relocate P s1 ar of
                None \<Rightarrow> None
              | Some (a2, rnd2) \<Rightarrow> Some (s1, a2, sc1, rnd2))"

subsection \<open>The host's callbacks (lines 499-555)\<close>

definition boot :: "'f platform \<Rightarrow> 8 word list \<Rightarrow> u32 stream \<Rightarrow> 'f Game" where
  "boot P peers rnd =
     (let (a, rnd1) = NewApple P rnd
      in \<lparr>frame = 0, apple = a, snakes = map (NewSnake P) peers, score = NewScore,
          random = rnd1\<rparr>)"

text \<open>
  The body of the loop of \<open>update\<close>, over the snakes that are left; the snakes already
  done are returned in front.
\<close>

fun updateLoop ::
  "'f platform \<Rightarrow> int \<Rightarrow> (8 word \<Rightarrow> 'f option) \<Rightarrow> 'f Snake list \<Rightarrow> Apple \<Rightarrow> Score
     \<Rightarrow> u32 stream \<Rightarrow> ('f Snake list \<times> Apple \<times> Score \<times> u32 stream) option" where
  "updateLoop P frm pads [] a sc rnd = Some ([], a, sc, rnd)"
| "updateLoop P frm pads (snake # rest) a sc rnd =
     (let (s1, rnd1) = Snake_Update P frm a (pads (Peer snake)) snake rnd
      in case TryEat P s1 a sc rnd1 of
           None \<Rightarrow> None
         | Some (s2, a2, sc2, rnd2) \<Rightarrow>
             (case updateLoop P frm pads rest a2 (Score_Update P s2 sc2) rnd2 of
                None \<Rightarrow> None
              | Some (rest', w) \<Rightarrow> Some (s2 # rest', w)))"

definition update :: "'f platform \<Rightarrow> (8 word \<Rightarrow> 'f option) \<Rightarrow> 'f Game \<Rightarrow> 'f Game option" where
  "update P pads g =
     (let frm = frame g + 1
      in case updateLoop P frm pads (snakes g) (apple g) (score g) (random g) of
           None \<Rightarrow> None
         | Some (ss, a, sc, rnd) \<Rightarrow>
             Some \<lparr>frame = frm, apple = a, snakes = ss, score = sc, random = rnd\<rparr>)"

definition cheat :: "'f platform \<Rightarrow> int \<Rightarrow> int \<Rightarrow> 'f Game \<Rightarrow> int \<times> 'f Game" where
  "cheat P c v g =
     (if c = 1 then let (a, rnd1) = Move P (random g) in (1, g\<lparr>apple := a, random := rnd1\<rparr>)
      else if c = 2 then let sc = (Inc ^^ nat v) (score g) in (val sc, g\<lparr>score := sc\<rparr>)
      else if c = 3 then let sc = (Dec ^^ nat v) (score g) in (val sc, g\<lparr>score := sc\<rparr>)
      else (0, g))"

subsection \<open>A platform to compute with\<close>

text \<open>
  For examples the parameters are instantiated with exact real arithmetic on the
  240 by 160 screen: no rounding, no NaN, and \<open>int(x)\<close> truncates towards zero.
  Division is the total division of HOL, where \<open>x / 0 = 0\<close>; \<open>float32\<close> has a NaN
  and two infinities there. The program divides by a variable in one place, by the
  distance between mouth and apple in \<open>updateEye\<close>, and the runs on this platform
  below keep the mouth off the apple, so that none of them divides by zero.
\<close>

definition toward_zero :: "real \<Rightarrow> int" where
  "toward_zero x = (if x \<ge> 0 then \<lfloor>x\<rfloor> else \<lceil>x\<rceil>)"

definition exact :: "real platform" where
  "exact =
     \<lparr>Width = 240, Height = 160, Cos = cos, Sin = sin,
      Hypot = (\<lambda>x y. sqrt (x * x + y * y)), IsNaN = (\<lambda>x. False),
      Pi = pi, Tau = 2 * pi, f32_const = of_rat, f32_of_int = of_int,
      f32_to_int = toward_zero, f32_add = (+), f32_sub = (-), f32_mul = (*),
      f32_div = (/), f32_neg = uminus, f32_lt = (<)\<rparr>"

text \<open>
  A second platform keeps the NaN of \<open>float32\<close>: its carrier is \<open>real option\<close>, and
  \<open>None\<close> is NaN. An operation with a NaN operand returns NaN, a comparison with a NaN
  operand is false, and a division by zero returns NaN. The program divides by zero
  only in \<open>updateEye\<close>, with the mouth on the apple, and then it divides zero by zero,
  which is NaN in \<open>float32\<close> as well. Go leaves the result of \<open>int(x)\<close> to the
  implementation when \<open>x\<close> is NaN; here it is the parameter \<open>n\<close> of the platform
  (\<open>- 2 ^ 63\<close> is what the conversion instruction of amd64 returns, \<open>0\<close> what a
  saturating conversion returns). Numbers are exact reals, as above.
\<close>

fun lift2 :: "(real \<Rightarrow> real \<Rightarrow> real) \<Rightarrow> real option \<Rightarrow> real option \<Rightarrow> real option" where
  "lift2 f (Some x) (Some y) = Some (f x y)"
| "lift2 f x y = None"

fun nan_div :: "real option \<Rightarrow> real option \<Rightarrow> real option" where
  "nan_div (Some x) (Some y) = (if y = 0 then None else Some (x / y))"
| "nan_div x y = None"

fun nan_lt :: "real option \<Rightarrow> real option \<Rightarrow> bool" where
  "nan_lt (Some x) (Some y) = (x < y)"
| "nan_lt x y = False"

fun nan_to_int :: "int \<Rightarrow> real option \<Rightarrow> int" where
  "nan_to_int n (Some x) = toward_zero x"
| "nan_to_int n None = n"

definition with_nan :: "int \<Rightarrow> real option platform" where
  "with_nan n =
     \<lparr>Width = 240, Height = 160, Cos = map_option cos, Sin = map_option sin,
      Hypot = lift2 (\<lambda>x y. sqrt (x * x + y * y)), IsNaN = (\<lambda>x. x = None),
      Pi = Some pi, Tau = Some (2 * pi), f32_const = (\<lambda>q. Some (of_rat q)),
      f32_of_int = (\<lambda>n. Some (of_int n)), f32_to_int = nan_to_int n,
      f32_add = lift2 (+), f32_sub = lift2 (-), f32_mul = lift2 (*),
      f32_div = nan_div, f32_neg = map_option uminus, f32_lt = nan_lt\<rparr>"


subsection \<open>Notions of the specification\<close>

text \<open>The positions of a chain, head first.\<close>

fun chain :: "Segment \<Rightarrow> Point list" where
  "chain (Segment p None) = [p]"
| "chain (Segment p (Some t)) = p # chain t"


text \<open>
  The new head point of a shift: one segment length from the head along the direction,
  the sine subtracted, wrapped.
\<close>

definition projected :: "'f platform \<Rightarrow> 'f Snake \<Rightarrow> Point" where
  "projected P s =
     \<lparr>X = normalizeX P (X (Head (SnakeHead s)) +
            f32_to_int P (f32_mul P (Cos P (Dir s)) (f32_const P 14))),
      Y = normalizeY P (Y (Head (SnakeHead s)) -
            f32_to_int P (f32_mul P (Sin P (Dir s)) (f32_const P 14)))\<rparr>"

text \<open>An eat is registered: the distance test of \<open>TryEat\<close> does not return early.\<close>

definition eats :: "'f platform \<Rightarrow> 'f Snake \<Rightarrow> Apple \<Rightarrow> bool" where
  "eats P s a =
     (\<not> f32_lt P (f32_const P 8)
          (Hypot P (f32_of_int P (X (Pos a) - X (Mouth s))) (f32_of_int P (Y (Pos a) - Y (Mouth s)))))"







subsection \<open>Example data\<close>

text \<open>
  The snake of peer 0 after it has moved right for two cycles and grown once, at the
  first frame of a cycle.
\<close>

definition long_snake :: "real Snake" where
  "long_snake =
     \<lparr>Peer = 0,
      SnakeHead =
        Segment \<lparr>X = 56, Y = 17\<rparr>
          (Some (Segment \<lparr>X = 42, Y = 17\<rparr> (Some (Segment \<lparr>X = 28, Y = 17\<rparr> None)))),
      Mouth = \<lparr>X = 56, Y = 17\<rparr>,
      Eye = \<lparr>X = 58, Y = 17\<rparr>,
      BlinkCounter = 0,
      BlinkMaxTime = 100,
      Dir = 0,
      state = Moving\<rparr>"

text \<open>
  The same snake with its mouth inside the box of its second segment pair.
\<close>

definition biting_snake :: "real Snake" where
  "biting_snake = long_snake\<lparr>Mouth := \<lparr>X = 40, Y = 17\<rparr>\<rparr>"


text \<open>
  The state after the first frame of a game of peer 0 whose apple was placed at
  \<open>(29, 17)\<close>, where the first frame puts the mouth: the eye is the mouth plus the
  conversion \<open>n\<close> of NaN in both coordinates, the apple was eaten and has been placed
  again.
\<close>

definition apple_tick :: "int \<Rightarrow> real option Game" where
  "apple_tick n =
     \<lparr>frame = 1,
      apple = \<lparr>Pos = \<lparr>X = 12, Y = 12\<rparr>\<rparr>,
      snakes =
        [\<lparr>Peer = 0,
          SnakeHead = Segment \<lparr>X = 28, Y = 17\<rparr> (Some (Segment \<lparr>X = 14, Y = 17\<rparr> None)),
          Mouth = \<lparr>X = 29, Y = 17\<rparr>,
          Eye = \<lparr>X = 29 + n, Y = 17 + n\<rparr>,
          BlinkCounter = 0,
          BlinkMaxTime = 107,
          Dir = Some 0,
          state = Eating\<rparr>],
      score = \<lparr>val = 1, iframes = 59, hunger = 359\<rparr>,
      random = sconst 7\<rparr>"

subsection \<open>Calls on the shared score\<close>

text \<open>
  The score is changed by \<open>Score.Update\<close> (once per snake in \<open>update\<close>), by
  \<open>Score.Inc\<close> (in \<open>TryEat\<close> and in \<open>cheat\<close>) and by \<open>Score.Dec\<close> (in \<open>Score.Update\<close>
  and in \<open>cheat\<close>). A run of the program performs a sequence of such calls on the
  score that \<open>NewScore\<close> made.
\<close>

datatype 'f score_call = CallUpdate "'f Snake" | CallInc | CallDec

fun call :: "'f platform \<Rightarrow> 'f score_call \<Rightarrow> Score \<Rightarrow> Score" where
  "call P (CallUpdate snake) sc = Score_Update P snake sc"
| "call P CallInc sc = Inc sc"
| "call P CallDec sc = Dec sc"

definition calls :: "'f platform \<Rightarrow> 'f score_call list \<Rightarrow> Score \<Rightarrow> Score" where
  "calls P cs sc = fold (call P) cs sc"

fun isUpdate :: "'f score_call \<Rightarrow> bool" where
  "isUpdate (CallUpdate snake) = True"
| "isUpdate c = False"

fun isInc :: "'f score_call \<Rightarrow> bool" where
  "isInc CallInc = True"
| "isInc c = False"

subsection \<open>Reachable states and the screen\<close>

text \<open>A snake that is too short to collide with anything.\<close>

definition brief :: "'f Snake \<Rightarrow> bool" where
  "brief s = (length (chain (SnakeHead s)) < 3)"

definition onScreen :: "'f platform \<Rightarrow> Point \<Rightarrow> bool" where
  "onScreen P p = (0 \<le> X p \<and> X p < Width P \<and> 0 \<le> Y p \<and> Y p < Height P)"

text \<open>
  Every point the state stores: the apple, and the segment positions, the mouth and
  the eye of every snake.
\<close>

definition stored :: "'f Game \<Rightarrow> Point set" where
  "stored g =
     insert (Pos (apple g))
       (\<Union>s \<in> set (snakes g). set (chain (SnakeHead s)) \<union> {Mouth s, Eye s})"

text \<open>
  The states of a run: the host boots once, and then calls \<open>update\<close> (with the pads
  of the frame) and \<open>cheat\<close> as it likes.
\<close>

inductive reachable :: "'f platform \<Rightarrow> 8 word list \<Rightarrow> 'f Game \<Rightarrow> bool"
  for P :: "'f platform" and peers :: "8 word list" where
  booted: "reachable P peers (boot P peers rnd)"
| updated: "reachable P peers g \<Longrightarrow> update P pads g = Some g' \<Longrightarrow> reachable P peers g'"
| cheated: "reachable P peers g \<Longrightarrow> reachable P peers (snd (cheat P c v g))"

text \<open>
  The start row of every peer's snake is on the screen.
\<close>

definition fits :: "'f platform \<Rightarrow> 8 word list \<Rightarrow> bool" where
  "fits P peers = list_all (\<lambda>peer. 10 + snakeWidth + uint peer * 20 < Height P) peers"

text \<open>
  The directions a snake can have: \<open>NewSnake\<close> starts with zero, and only \<open>setDir\<close>
  changes the direction.
\<close>

inductive_set dirs :: "'f platform \<Rightarrow> 'f set" for P :: "'f platform" where
  start: "f32_const P 0 \<in> dirs P"
| turn: "Dir s \<in> dirs P \<Longrightarrow> Dir (setDir P azimuth s) \<in> dirs P"

text \<open>
  The three values that the program converts from \<open>float32\<close> to \<open>int\<close> and adds to a
  coordinate: the length of the head in \<open>updateMouth\<close>, and the two offsets of the eye
  in \<open>updateEye\<close>, for the differences \<open>a\<close> and \<open>b\<close> between apple and mouth.
\<close>

definition headLen :: "'f platform \<Rightarrow> int \<Rightarrow> 'f" where
  "headLen P frm =
     f32_div P (f32_mul P (f32_const P (of_int segmentLen)) (f32_of_int P frm))
       (f32_const P (of_int period))"

definition lookX :: "'f platform \<Rightarrow> int \<Rightarrow> int \<Rightarrow> int" where
  "lookX P a b =
     f32_to_int P (f32_div P (f32_mul P (f32_of_int P a) (f32_const P 3))
       (Hypot P (f32_of_int P a) (f32_of_int P b)))"

definition lookY :: "'f platform \<Rightarrow> int \<Rightarrow> int \<Rightarrow> int" where
  "lookY P a b =
     f32_to_int P (f32_div P (f32_mul P (f32_of_int P b) (f32_const P 3))
       (Hypot P (f32_of_int P a) (f32_of_int P b)))"

text \<open>
  What the screen invariant needs from the imported arithmetic. The screen has room
  for the start of a snake and for an apple, and its sizes fit \<open>uint32\<close>. For a
  direction that a snake can have, a step of the head or of the mouth converts to at
  most one screen size, so that one wrap is enough. For an apple that is not at the
  mouth, an offset of the eye converts to at most 3 and does not point away from the
  apple. Nothing is asked of the offsets for \<open>a = b = 0\<close>, where the program divides
  zero by zero and converts the result.
\<close>

definition tame :: "'f platform \<Rightarrow> bool" where
  "tame P =
     (segmentLen * 2 < Width P \<and> Width P - appleRadius * 2 < 2 ^ 32 \<and>
      appleRadius * 2 < Height P \<and> Height P - appleRadius * 2 < 2 ^ 32 \<and>
      (\<forall>d \<in> dirs P.
           \<bar>f32_to_int P (f32_mul P (Cos P d) (f32_const P (of_int segmentLen)))\<bar> \<le> Width P \<and>
           \<bar>f32_to_int P (f32_mul P (Sin P d) (f32_const P (of_int segmentLen)))\<bar> \<le> Height P) \<and>
      (\<forall>d \<in> dirs P. \<forall>frm. \<bar>frm\<bar> < period \<longrightarrow>
           \<bar>f32_to_int P (f32_mul P (Cos P d) (headLen P frm))\<bar> \<le> Width P \<and>
           \<bar>f32_to_int P (f32_mul P (Sin P d) (headLen P frm))\<bar> \<le> Height P) \<and>
      (\<forall>a b. (a \<noteq> 0 \<or> b \<noteq> 0) \<and> \<bar>a\<bar> < Width P \<and> \<bar>b\<bar> < Height P \<longrightarrow>
           \<bar>lookX P a b\<bar> \<le> 3 \<and> (0 < a \<longrightarrow> 0 \<le> lookX P a b) \<and> (a < 0 \<longrightarrow> lookX P a b \<le> 0) \<and>
           \<bar>lookY P a b\<bar> \<le> 3 \<and> (0 < b \<longrightarrow> 0 \<le> lookY P a b) \<and> (b < 0 \<longrightarrow> lookY P a b \<le> 0)))"

text \<open>
  The apple keeps its radius away from the edges.
\<close>

definition margin :: "'f platform \<Rightarrow> Point \<Rightarrow> bool" where
  "margin P p =
     (appleRadius \<le> X p \<and> X p < Width P - appleRadius \<and>
      appleRadius \<le> Y p \<and> Y p < Height P - appleRadius)"

text \<open>
  The eye of a snake whose mouth was on the apple when \<open>updateEye\<close> ran: the mouth
  keeps the margin of the apple, and the eye is the mouth plus the two converted
  quotients of zero by zero.
\<close>

definition eyeOnApple :: "'f platform \<Rightarrow> 'f Snake \<Rightarrow> bool" where
  "eyeOnApple P s =
     (margin P (Mouth s) \<and>
      Eye s = \<lparr>X = X (Mouth s) + lookX P 0 0, Y = Y (Mouth s) + lookY P 0 0\<rparr>)"

text \<open>
  The invariant of a snake: chain, mouth and direction are as they should be, and the
  eye is on the screen unless the mouth was on the apple. The invariant of a game adds
  the margin of the apple.
\<close>

definition firm :: "'f platform \<Rightarrow> 'f Snake \<Rightarrow> bool" where
  "firm P s =
     ((\<forall>p \<in> set (chain (SnakeHead s)). onScreen P p) \<and> onScreen P (Mouth s) \<and> Dir s \<in> dirs P)"

definition sound :: "'f platform \<Rightarrow> 'f Snake \<Rightarrow> bool" where
  "sound P s = (firm P s \<and> (onScreen P (Eye s) \<or> eyeOnApple P s))"

definition safe :: "'f platform \<Rightarrow> 'f Game \<Rightarrow> bool" where
  "safe P g = ((\<forall>s \<in> set (snakes g). sound P s) \<and> margin P (Pos (apple g)))"

section \<open>Properties\<close>

subsection \<open>Arithmetic and the example platform\<close>

lemma quo_pos: "0 \<le> a \<Longrightarrow> 0 < b \<Longrightarrow> quo a b = a div b"
  by (cases "a = 0") (simp_all add: quo_def)

lemma exact_simps:
  "Width exact = 240" "Height exact = 160" "Cos exact = cos" "Sin exact = sin"
  "Hypot exact = (\<lambda>x y. sqrt (x * x + y * y))" "IsNaN exact = (\<lambda>x. False)"
  "f32_const exact = of_rat" "f32_of_int exact = of_int" "f32_to_int exact = toward_zero"
  "f32_add exact = (+)" "f32_sub exact = (-)" "f32_mul exact = (*)" "f32_div exact = (/)"
  "f32_neg exact = uminus" "f32_lt exact = (<)" "Pi exact = pi" "Tau exact = 2 * pi"
  by (simp_all add: exact_def)

lemma toward_zero_numeral [simp]:
  "toward_zero (numeral n) = numeral n" "toward_zero 0 = 0" "toward_zero 1 = 1"
  by (simp_all add: toward_zero_def)

lemma Move_exact:
  "Move exact rnd =
     (\<lparr>Pos = \<lparr>X = uint (shd rnd mod 230) + 5, Y = uint (shd (stl rnd) mod 150) + 5\<rparr>\<rparr>,
      stl (stl rnd))"
  by (simp add: Move_def Let_def exact_simps appleRadius_def)

subsection \<open>The penalty\<close>

text \<open>
  C6. \<open>Score.Dec\<close> does nothing while \<open>iframes\<close> is positive. Otherwise it sets
  \<open>iframes\<close> to \<open>IFrames\<close>, leaves \<open>hunger\<close> alone and, when the value is positive,
  takes \<open>floor(value/5) + 1\<close> off it (\<open>div\<close> is the floor division of HOL, and Go's
  truncating division agrees with it on a positive value). A value that is not
  negative stays so. The value 12 with no invulnerability left becomes 9 with the full
  window.
\<close>

theorem Dec_penalty:
  "(iframes s > 0 \<longrightarrow> Dec s = s) \<and>
   (\<not> iframes s > 0 \<longrightarrow>
      iframes (Dec s) = IFrames \<and> hunger (Dec s) = hunger s \<and>
      (val s > 0 \<longrightarrow> val (Dec s) = val s - (val s div 5 + 1)) \<and>
      (\<not> val s > 0 \<longrightarrow> val (Dec s) = val s)) \<and>
   (0 \<le> val s \<longrightarrow> 0 \<le> val (Dec s)) \<and>
   Dec \<lparr>val = 12, iframes = 0, hunger = h\<rparr> = \<lparr>val = 9, iframes = IFrames, hunger = h\<rparr>"
  by (auto simp: Dec_def Let_def quo_pos)

theorem Dec_penalty_witness:
  "Dec \<lparr>val = 12, iframes = 3, hunger = 7\<rparr> = \<lparr>val = 12, iframes = 3, hunger = 7\<rparr> \<and>
   iframes (Dec \<lparr>val = 12, iframes = 0, hunger = 7\<rparr>) = 60 \<and>
   val (Dec \<lparr>val = 12, iframes = 0, hunger = 7\<rparr>) = 9 \<and>
   val (Dec \<lparr>val = 0, iframes = 0, hunger = 7\<rparr>) = 0 \<and>
   val (Dec \<lparr>val = 1, iframes = 0, hunger = 7\<rparr>) = 0"
  using Dec_penalty [where s = "\<lparr>val = 12, iframes = 3, hunger = 7\<rparr>" and h = 7]
    Dec_penalty [where s = "\<lparr>val = 12, iframes = 0, hunger = 7\<rparr>" and h = 7]
    Dec_penalty [where s = "\<lparr>val = 0, iframes = 0, hunger = 7\<rparr>" and h = 7]
    Dec_penalty [where s = "\<lparr>val = 1, iframes = 0, hunger = 7\<rparr>" and h = 7]
  by (simp add: IFrames_def)

subsection \<open>Collision\<close>

lemma chain_not_Nil: "chain seg \<noteq> []"
  by (induction seg rule: chain.induct) simp_all


lemma Collides_long:
  "Collides exact (long_snake\<lparr>state := st\<rparr>) p =
     (25 \<le> X p \<and> X p \<le> 45 \<and> 14 \<le> Y p \<and> Y p \<le> 20)"
  by (auto simp: Collides_def long_snake_def pairBBox_def denormalizeX_def denormalizeY_def
      NewBBox_def ComponentMin_def ComponentMax_def Let_def quo_def snakeWidth_def Contains_def)

text \<open>The box of a pair that does not cross a seam.\<close>

lemma pairBBox_near:
  "\<bar>X ph - X pt\<bar> \<le> 30 \<Longrightarrow> \<bar>Y ph - Y pt\<bar> \<le> 30 \<Longrightarrow>
     pairBBox P ph pt =
       \<lparr>left = \<lparr>X = min (X ph) (X pt) - 3, Y = min (Y ph) (Y pt) - 3\<rparr>,
        right = \<lparr>X = max (X ph) (X pt) + 3, Y = max (Y ph) (Y pt) + 3\<rparr>\<rparr>"
proof -
  assume "\<bar>X ph - X pt\<bar> \<le> 30" "\<bar>Y ph - Y pt\<bar> \<le> 30"
  then have "denormalizeX P (X ph) (X pt) = (X ph, X pt)" "denormalizeY P (Y ph) (Y pt) = (Y ph, Y pt)"
    by (auto simp: denormalizeX_def denormalizeY_def)
  then show ?thesis
    by (simp add: pairBBox_def NewBBox_def ComponentMin_def ComponentMax_def Let_def quo_def
        snakeWidth_def)
qed








text \<open>
  C9. A snake whose chain has fewer than three segments collides with no point: the
  loop of \<open>Collides\<close> starts at the second segment and needs a segment with a
  successor. \<open>NewSnake\<close> builds a chain of two segments, so a new snake collides with
  nothing.
\<close>

theorem Collides_short:
  "(length (chain (SnakeHead s)) < 3 \<longrightarrow> \<not> Collides P s p) \<and>
   length (chain (SnakeHead (NewSnake P peer))) = 2 \<and>
   \<not> Collides P (NewSnake P peer) p"
proof -
  have a: "\<not> Collides P s p" if "length (chain (SnakeHead s)) < 3" for s :: "'a Snake"
  proof (cases "SnakeHead s")
    case (Segment h t)
    show ?thesis
    proof (cases t)
      case None
      with Segment show ?thesis by (simp add: Collides_def)
    next
      case (Some n)
      obtain h2 t2 where n: "n = Segment h2 t2" by (cases n)
      show ?thesis
      proof (cases t2)
        case None
        with Segment Some n show ?thesis by (simp add: Collides_def)
      next
        case (Some m)
        obtain h3 t3 where "m = Segment h3 t3" by (cases m)
        with Segment \<open>t = Some n\<close> n Some that have False
          by (cases t3) simp_all
        then show ?thesis ..
      qed
    qed
  qed
  have b: "length (chain (SnakeHead (NewSnake P peer))) = 2"
    by (simp add: NewSnake_def Let_def)
  from a [of "NewSnake P peer"] b have "\<not> Collides P (NewSnake P peer) p" by simp
  with a b show ?thesis by blast
qed

theorem Collides_short_witness:
  "length (chain (SnakeHead (NewSnake exact 0))) < 3 \<and>
   \<not> Collides exact (NewSnake exact 0) \<lparr>X = 20, Y = 17\<rparr>"
  using Collides_short [of "NewSnake exact 0" exact "\<lparr>X = 20, Y = 17\<rparr>" 0]
  by (simp add: NewSnake_def Let_def)

subsection \<open>The shift of the chain\<close>

lemma chain_shiftLoop: "chain (shiftLoop h seg) = h # butlast (chain seg)"
  by (induction h seg rule: shiftLoop.induct) (simp_all add: chain_not_Nil)

lemma shift_head:
  "Snake_shift P s =
     (if state s = Growing
      then s\<lparr>SnakeHead := Segment (projected P s) (Some (SnakeHead s)), state := Moving\<rparr>
      else s\<lparr>state := (if state s = Eating then Growing else state s),
             SnakeHead := shiftLoop (projected P s) (SnakeHead s)\<rparr>)"
  by (simp add: Snake_shift_def projected_def Let_def segmentLen_def)

text \<open>
  C5. A shift in state \<open>Growing\<close> puts the projected point in front of the old chain:
  the chain is one longer, the old positions follow in their order, and the state is
  \<open>Moving\<close>.
\<close>

theorem shift_Growing:
  "state s = Growing \<Longrightarrow>
     chain (SnakeHead (Snake_shift P s)) = projected P s # chain (SnakeHead s) \<and>
     length (chain (SnakeHead (Snake_shift P s))) = length (chain (SnakeHead s)) + 1 \<and>
     state (Snake_shift P s) = Moving"
  by (simp add: shift_head)

theorem shift_Growing_witness:
  "state (long_snake\<lparr>state := Growing\<rparr>) = Growing \<and>
   chain (SnakeHead (Snake_shift exact (long_snake\<lparr>state := Growing\<rparr>))) =
     [\<lparr>X = 70, Y = 17\<rparr>, \<lparr>X = 56, Y = 17\<rparr>, \<lparr>X = 42, Y = 17\<rparr>, \<lparr>X = 28, Y = 17\<rparr>] \<and>
   state (Snake_shift exact (long_snake\<lparr>state := Growing\<rparr>)) = Moving"
  using shift_Growing [of "long_snake\<lparr>state := Growing\<rparr>" exact]
  by (simp add: long_snake_def projected_def exact_simps normalizeX_def normalizeY_def)

text \<open>
  C3, as the claim states it, fails: a normal shift of the new snake of peer 0 on the
  example platform turns the positions (28,17), (14,17) into (42,17), (28,17). The
  new head point was not among the old positions and the old tail position is gone,
  so the new positions are no rotation of the old ones: not even the sets agree.
\<close>

theorem shift_rotation_counterexample:
  "state (NewSnake exact 0) \<noteq> Growing \<and>
   chain (SnakeHead (NewSnake exact 0)) = [\<lparr>X = 28, Y = 17\<rparr>, \<lparr>X = 14, Y = 17\<rparr>] \<and>
   chain (SnakeHead (Snake_shift exact (NewSnake exact 0))) =
     [\<lparr>X = 42, Y = 17\<rparr>, \<lparr>X = 28, Y = 17\<rparr>] \<and>
   set (chain (SnakeHead (Snake_shift exact (NewSnake exact 0)))) \<noteq>
     set (chain (SnakeHead (NewSnake exact 0)))"
  by (simp add: shift_head projected_def NewSnake_def Let_def exact_simps normalizeX_def
      normalizeY_def snakeWidth_def segmentLen_def doubleton_eq_iff)

text \<open>
  C3, amended. After a shift in a state other than \<open>Growing\<close> the chain has the length
  it had, and its positions are the projected point followed by the old positions
  without the last one: every segment takes the position of its predecessor and the
  old tail position is dropped. The state \<open>Eating\<close> becomes \<open>Growing\<close>, the state
  \<open>Moving\<close> stays.
\<close>

theorem shift_normal:
  "state s \<noteq> Growing \<Longrightarrow>
     chain (SnakeHead (Snake_shift P s)) = projected P s # butlast (chain (SnakeHead s)) \<and>
     length (chain (SnakeHead (Snake_shift P s))) = length (chain (SnakeHead s)) \<and>
     state (Snake_shift P s) = (if state s = Eating then Growing else Moving)"
  by (cases "state s") (simp_all add: shift_head chain_shiftLoop chain_not_Nil)

theorem shift_normal_witness:
  "state (long_snake\<lparr>state := Eating\<rparr>) \<noteq> Growing \<and>
   chain (SnakeHead (Snake_shift exact (long_snake\<lparr>state := Eating\<rparr>))) =
     [\<lparr>X = 70, Y = 17\<rparr>, \<lparr>X = 56, Y = 17\<rparr>, \<lparr>X = 42, Y = 17\<rparr>] \<and>
   state (Snake_shift exact (long_snake\<lparr>state := Eating\<rparr>)) = Growing"
  using shift_normal [of "long_snake\<lparr>state := Eating\<rparr>" exact]
  by (simp add: long_snake_def projected_def exact_simps normalizeX_def normalizeY_def)

subsection \<open>Relocation of the apple\<close>

text \<open>Whatever the relocation loop returns does not collide with the snake.\<close>

lemma relocate_clear:
  assumes "relocate P s ar = Some ar'"
  shows "\<not> Collides P s (Pos (fst ar'))"
proof -
  have "(\<lambda>x y. \<not> Collides (fst (fst x)) (snd (fst x)) (Pos (fst y))) ((P, s), ar) ar'"
  proof (rule relocate.raw_induct [OF _ assms])
    fix rel and P :: "'a platform" and s ar y
    assume IH: "\<And>s ar b y. rel s ar b = Some y
        \<Longrightarrow> \<not> Collides (fst (fst ((s, ar), b))) (snd (fst ((s, ar), b))) (Pos (fst y))"
      and step: "(if Collides P s (Pos (fst ar)) then rel P s (Move P (snd ar)) else Some ar) = Some y"
    show "\<not> Collides (fst (fst ((P, s), ar))) (snd (fst ((P, s), ar))) (Pos (fst y))"
    proof (cases "Collides P s (Pos (fst ar))")
      case True
      with step have "rel P s (Move P (snd ar)) = Some y" by simp
      from IH [OF this] show ?thesis by simp
    next
      case False
      with step show ?thesis by simp
    qed
  qed
  then show ?thesis by simp
qed

text \<open>The loop returns as soon as one of the relocations is clear of the snake.\<close>

lemma relocate_returns:
  "\<not> Collides P s (Pos (fst (((\<lambda>ar. Move P (snd ar)) ^^ n) ar))) \<Longrightarrow>
     \<exists>ar'. relocate P s ar = Some ar'"
proof (induction n arbitrary: ar)
  case 0
  then show ?case using relocate.simps [of P s ar] by simp
next
  case (Suc n)
  show ?case
  proof (cases "Collides P s (Pos (fst ar))")
    case True
    from Suc.prems have "\<not> Collides P s (Pos (fst (((\<lambda>ar. Move P (snd ar)) ^^ n) (Move P (snd ar)))))"
      by (simp add: funpow_Suc_right del: funpow.simps)
    from Suc.IH [OF this] obtain ar' where "relocate P s (Move P (snd ar)) = Some ar'" ..
    with True relocate.simps [of P s ar] show ?thesis by simp
  next
    case False
    then show ?thesis using relocate.simps [of P s ar] by simp
  qed
qed

lemma TryEat_long:
  "TryEat exact long_snake \<lparr>Pos = \<lparr>X = 58, Y = 17\<rparr>\<rparr> NewScore (30 ## 12 ## sconst 100) =
     Some (long_snake\<lparr>state := Eating\<rparr>, \<lparr>Pos = \<lparr>X = 105, Y = 105\<rparr>\<rparr>, Inc NewScore, sconst 100)"
proof -
  have m2: "Move exact (sconst 100) = (\<lparr>Pos = \<lparr>X = 105, Y = 105\<rparr>\<rparr>, sconst 100)"
    by (simp add: Move_exact)
  have "relocate exact (long_snake\<lparr>state := Eating\<rparr>) (Move exact (30 ## 12 ## sconst 100)) =
      Some (\<lparr>Pos = \<lparr>X = 105, Y = 105\<rparr>\<rparr>, sconst 100)"
    apply (subst relocate.simps)
    apply (simp add: Move_exact Collides_long)
    apply (subst relocate.simps)
    apply (simp add: m2 Collides_long)
    done
  then show ?thesis
    by (simp add: TryEat_def Let_def exact_simps long_snake_def appleRadius_def snakeWidth_def
        quo_def)
qed

text \<open>
  C7. When \<open>TryEat\<close> registers an eat and returns, the apple it returns does not
  collide with the eating snake, which is in state \<open>Eating\<close>. The loop has no bound,
  so that it returns is a hypothesis (\<open>relocate_returns\<close> says when it does); in the
  witness the first relocation, to (35,17), lands on the body and the second, to
  (105,105), is clear.
\<close>

theorem TryEat_clear:
  "TryEat P s a sc rnd = Some (s', a', sc', rnd') \<Longrightarrow> eats P s a \<Longrightarrow>
     state s' = Eating \<and> \<not> Collides P s' (Pos a') \<and> \<not> Collides P s (Pos a')"
proof -
  assume r: "TryEat P s a sc rnd = Some (s', a', sc', rnd')" and e: "eats P s a"
  from e have far: "\<not> f32_lt P (f32_const P (of_int (appleRadius + quo snakeWidth 2)))
      (Hypot P (f32_of_int P (X (Pos a) - X (Mouth s))) (f32_of_int P (Y (Pos a) - Y (Mouth s))))"
    by (simp add: eats_def appleRadius_def snakeWidth_def quo_def)
  from r far obtain s': "s' = s\<lparr>state := Eating\<rparr>"
    and rel: "relocate P (s\<lparr>state := Eating\<rparr>) (Move P rnd) = Some (a', rnd')"
    by (auto simp: TryEat_def Let_def split: option.splits)
  from relocate_clear [OF rel] have "\<not> Collides P (s\<lparr>state := Eating\<rparr>) (Pos a')" by simp
  with s' show ?thesis by (simp add: Collides_def)
qed

theorem TryEat_clear_witness:
  "TryEat exact long_snake \<lparr>Pos = \<lparr>X = 58, Y = 17\<rparr>\<rparr> NewScore (30 ## 12 ## sconst 100) =
     Some (long_snake\<lparr>state := Eating\<rparr>, \<lparr>Pos = \<lparr>X = 105, Y = 105\<rparr>\<rparr>, Inc NewScore, sconst 100) \<and>
   eats exact long_snake \<lparr>Pos = \<lparr>X = 58, Y = 17\<rparr>\<rparr> \<and>
   Collides exact long_snake \<lparr>X = 35, Y = 17\<rparr> \<and>
   \<not> Collides exact long_snake \<lparr>X = 105, Y = 105\<rparr>"
proof -
  have e: "eats exact long_snake \<lparr>Pos = \<lparr>X = 58, Y = 17\<rparr>\<rparr>"
    by (simp add: eats_def exact_simps long_snake_def)
  have c: "Collides exact long_snake \<lparr>X = 35, Y = 17\<rparr>"
    using Collides_long [of Moving "\<lparr>X = 35, Y = 17\<rparr>"] by (simp add: long_snake_def)
  from TryEat_clear [OF TryEat_long e] TryEat_long e c show ?thesis by simp
qed

subsection \<open>Invulnerability after boot\<close>

lemma calls_simps [simp]:
  "calls P [] sc = sc"
  "calls P (c # cs) sc = calls P cs (call P c sc)"
  "calls P (cs @ ds) sc = calls P ds (calls P cs sc)"
  by (simp_all add: calls_def)

lemma Score_Update_guarded:
  "1 < iframes s \<Longrightarrow>
     iframes (Score_Update P sn s) = iframes s - 1 \<and> val (Score_Update P sn s) = val s"
  by (simp add: Score_Update_def Dec_def Let_def)

lemma Dec_guarded: "0 < iframes s \<Longrightarrow> Dec s = s"
  by (simp add: Dec_def)

lemma boot_guard:
  "length (filter isUpdate cs) < 60 \<Longrightarrow>
     iframes (calls P cs NewScore) = IFrames - int (length (filter isUpdate cs)) \<and>
     val (calls P cs NewScore) = int (length (filter isInc cs))"
proof (induction cs rule: rev_induct)
  case Nil
  show ?case by (simp add: NewScore_def)
next
  case (snoc c cs)
  then have n: "length (filter isUpdate cs) < 60" by simp
  note IH = snoc.IH [OF n]
  show ?case
  proof (cases c)
    case (CallUpdate sn)
    with snoc.prems have "length (filter isUpdate cs) < 59" by simp
    with IH have "1 < iframes (calls P cs NewScore)" by (simp add: IFrames_def)
    from Score_Update_guarded [OF this, of P sn] IH CallUpdate show ?thesis by simp
  next
    case CallInc
    with IH show ?thesis by (simp add: Inc_def)
  next
    case CallDec
    from IH n have "0 < iframes (calls P cs NewScore)" by (simp add: IFrames_def)
    with IH CallDec show ?thesis by (simp add: Dec_guarded)
  qed
qed

lemma calls_replicate_Update:
  "\<not> Collides P sn (Mouth sn) \<Longrightarrow> int k \<le> iframes s \<Longrightarrow> int k \<le> hunger s \<Longrightarrow>
     calls P (replicate k (CallUpdate sn)) s =
       s\<lparr>iframes := iframes s - int k, hunger := hunger s - int k\<rparr>"
proof (induction k arbitrary: s)
  case 0
  show ?case by simp
next
  case (Suc k)
  from Suc.prems have u: "Score_Update P sn s = s\<lparr>iframes := iframes s - 1, hunger := hunger s - 1\<rparr>"
    by (simp add: Score_Update_def Let_def)
  from Suc.prems have "calls P (replicate k (CallUpdate sn)) (Score_Update P sn s) =
      (Score_Update P sn s)\<lparr>iframes := iframes (Score_Update P sn s) - int k,
        hunger := hunger (Score_Update P sn s) - int k\<rparr>"
    by (intro Suc.IH) (simp_all add: u)
  then show ?case by (simp add: u)
qed

lemma new_snake_clear: "\<not> Collides P (NewSnake P peer) (Mouth (NewSnake P peer))"
  by (simp add: Collides_def NewSnake_def Let_def)

lemma biting: "Collides exact biting_snake (Mouth biting_snake)"
  using Collides_long [of Moving "\<lparr>X = 40, Y = 17\<rparr>"]
  by (simp add: biting_snake_def long_snake_def Collides_def)

lemma after59:
  "calls exact (CallInc # replicate 59 (CallUpdate (NewSnake exact 0))) NewScore =
     \<lparr>val = 1, iframes = 1, hunger = 301\<rparr>"
  using calls_replicate_Update [OF new_snake_clear, of 59 "Inc NewScore" exact 0]
  by (simp add: Inc_def NewScore_def IFrames_def HungerPeriod_def)

lemma after60:
  "calls exact (CallInc # replicate 60 (CallUpdate (NewSnake exact 0))) NewScore =
     \<lparr>val = 1, iframes = 0, hunger = 300\<rparr>"
  using calls_replicate_Update [OF new_snake_clear, of 60 "Inc NewScore" exact 0]
  by (simp add: Inc_def NewScore_def IFrames_def HungerPeriod_def)

text \<open>
  C10, as the claim states it, fails at the sixtieth frame. \<open>Score.Update\<close> counts
  \<open>iframes\<close> down before it checks for a penalty. After an eat and 59 frames of a
  single snake the score is 1 with one frame of invulnerability left; the sixtieth
  \<open>Score.Update\<close> takes that frame first, so a collision in it costs the point; and
  when the sixtieth \<open>Score.Update\<close> finds no collision, a \<open>Score.Dec\<close> that follows it
  (from \<open>cheat\<close>) costs the point.
\<close>

theorem boot_invulnerable_counterexample:
  "calls exact (CallInc # replicate 59 (CallUpdate (NewSnake exact 0))) NewScore =
     \<lparr>val = 1, iframes = 1, hunger = 301\<rparr> \<and>
   calls exact (CallInc # replicate 59 (CallUpdate (NewSnake exact 0)) @ [CallUpdate biting_snake])
       NewScore =
     \<lparr>val = 0, iframes = 60, hunger = 300\<rparr> \<and>
   calls exact (CallInc # replicate 60 (CallUpdate (NewSnake exact 0))) NewScore =
     \<lparr>val = 1, iframes = 0, hunger = 300\<rparr> \<and>
   calls exact (CallInc # replicate 60 (CallUpdate (NewSnake exact 0)) @ [CallDec]) NewScore =
     \<lparr>val = 0, iframes = 60, hunger = 300\<rparr>"
proof -
  have a: "calls exact ((CallInc # replicate 59 (CallUpdate (NewSnake exact 0))) @ [CallUpdate biting_snake])
       NewScore = \<lparr>val = 0, iframes = 60, hunger = 300\<rparr>"
    unfolding calls_simps(3) after59
    by (simp add: Score_Update_def Let_def biting Dec_def IFrames_def quo_def)
  have b: "calls exact ((CallInc # replicate 60 (CallUpdate (NewSnake exact 0))) @ [CallDec]) NewScore =
     \<lparr>val = 0, iframes = 60, hunger = 300\<rparr>"
    unfolding calls_simps(3) after60
    by (simp add: Dec_def IFrames_def quo_def)
  from a b after59 after60 show ?thesis by simp
qed

text \<open>
  C10, amended. \<open>NewScore\<close> starts with the full window, and as long as
  \<open>Score.Update\<close> has run fewer than 60 times since then, whatever calls were made,
  the window has shrunk by one per \<open>Score.Update\<close>, no penalty has had an effect (the
  value is the number of calls of \<open>Score.Inc\<close>), and a call of \<open>Score.Dec\<close> changes
  nothing. With one snake these are the penalties of the frames 1 to 59.
\<close>

theorem boot_invulnerable:
  "length (filter isUpdate cs) < 60 \<Longrightarrow>
     iframes (calls P cs NewScore) = IFrames - int (length (filter isUpdate cs)) \<and>
     val (calls P cs NewScore) = int (length (filter isInc cs)) \<and>
     Dec (calls P cs NewScore) = calls P cs NewScore"
proof -
  assume n: "length (filter isUpdate cs) < 60"
  from boot_guard [OF n, of P] have "0 < iframes (calls P cs NewScore)"
    using n by (simp add: IFrames_def)
  with boot_guard [OF n, of P] show ?thesis by (simp add: Dec_guarded)
qed

theorem boot_invulnerable_witness:
  "length (filter isUpdate (CallInc # replicate 59 (CallUpdate (NewSnake exact 0)) @ [CallDec])) < 60 \<and>
   calls exact (CallInc # replicate 59 (CallUpdate (NewSnake exact 0)) @ [CallDec]) NewScore =
     \<lparr>val = 1, iframes = 1, hunger = 301\<rparr>"
proof -
  let ?cs = "CallInc # replicate 59 (CallUpdate (NewSnake exact 0))"
  have n: "length (filter isUpdate ?cs) < 60" by simp
  have "calls exact (?cs @ [CallDec]) NewScore = Dec (calls exact ?cs NewScore)"
    unfolding calls_simps(3) by simp
  with boot_invulnerable [OF n, of exact] after59 n show ?thesis by simp
qed

subsection \<open>One tick\<close>

lemma setDir_Dir: "\<exists>d. setDir P az s = s\<lparr>Dir := d\<rparr>"
proof (cases "IsNaN P (f32_sub P az (Dir s))")
  case True
  then have "setDir P az s = s\<lparr>Dir := Dir s\<rparr>" by (simp add: setDir_def Let_def)
  then show ?thesis ..
next
  case False
  then show ?thesis unfolding setDir_def Let_def by (simp only: if_False) blast
qed

lemma updateMouth_Mouth: "\<exists>m. updateMouth P frm s = s\<lparr>Mouth := m\<rparr>"
  unfolding updateMouth_def Let_def by blast

lemma updateEye_fields:
  "SnakeHead (fst (updateEye P ap s rnd)) = SnakeHead s \<and>
   Mouth (fst (updateEye P ap s rnd)) = Mouth s \<and>
   state (fst (updateEye P ap s rnd)) = state s \<and>
   Peer (fst (updateEye P ap s rnd)) = Peer s"
  by (simp add: updateEye_def Let_def)

lemma brief_shift: "brief s \<Longrightarrow> state s \<noteq> Growing \<Longrightarrow> brief (Snake_shift P s)"
  by (simp add: brief_def shift_head chain_shiftLoop chain_not_Nil)

lemma brief_Snake_Update:
  assumes s: "brief s" and g: "state s \<noteq> Growing"
  shows "brief (fst (Snake_Update P frm a pad s rnd))"
proof -
  define s1 where "s1 = (case pad of Some azimuth \<Rightarrow> setDir P azimuth s | None \<Rightarrow> s)"
  define s2 where "s2 = (if rem frm period = 0 then Snake_shift P s1 else s1)"
  define s3 where "s3 = updateMouth P (rem frm period) s2"
  have 1: "brief s1 \<and> state s1 \<noteq> Growing"
  proof (cases pad)
    case None
    with s g show ?thesis by (simp add: s1_def)
  next
    case (Some az)
    from setDir_Dir [of P az s] obtain d where "setDir P az s = s\<lparr>Dir := d\<rparr>" ..
    with s g Some show ?thesis by (simp add: s1_def brief_def)
  qed
  have 2: "brief s2"
  proof (cases "rem frm period = 0")
    case True
    with brief_shift [of s1 P] 1 show ?thesis by (simp add: s2_def)
  next
    case False
    with 1 show ?thesis by (simp add: s2_def)
  qed
  from updateMouth_Mouth [of P "rem frm period" s2]
  obtain m where "s3 = s2\<lparr>Mouth := m\<rparr>" unfolding s3_def ..
  with 2 have 3: "brief s3" by (simp add: brief_def)
  have "Snake_Update P frm a pad s rnd = updateEye P (Pos a) s3 rnd"
    by (simp add: Snake_Update_def Let_def s1_def s2_def s3_def)
  with 3 show ?thesis by (simp add: brief_def updateEye_fields)
qed

lemma brief_clear: "brief s \<Longrightarrow> \<not> Collides P s p"
proof -
  assume "brief s"
  then have l: "length (chain (SnakeHead s)) < 3" by (simp add: brief_def)
  obtain h t where s: "SnakeHead s = Segment h t" by (cases "SnakeHead s")
  show ?thesis
  proof (cases t)
    case None
    with s show ?thesis by (simp add: Collides_def)
  next
    case (Some n)
    obtain h2 t2 where n: "n = Segment h2 t2" by (cases n)
    show ?thesis
    proof (cases t2)
      case None
      with s Some n show ?thesis by (simp add: Collides_def)
    next
      case (Some m)
      obtain h3 t3 where "m = Segment h3 t3" by (cases m)
      with s \<open>t = Some n\<close> n Some l have False by (cases t3) simp_all
      then show ?thesis ..
    qed
  qed
qed

lemma TryEat_brief:
  assumes "brief s"
  shows "\<exists>s' a' rnd'. brief s' \<and>
     (TryEat P s a sc rnd = Some (s', a', sc, rnd') \<or>
      TryEat P s a sc rnd = Some (s', a', Inc sc, rnd'))"
proof (cases "eats P s a")
  case False
  then have "TryEat P s a sc rnd = Some (s, a, sc, rnd)"
    by (simp add: TryEat_def eats_def Let_def appleRadius_def snakeWidth_def quo_def)
  with assms show ?thesis by blast
next
  case True
  let ?s = "s\<lparr>state := Eating\<rparr>"
  from assms have sh: "brief ?s" by (simp add: brief_def)
  have "relocate P ?s (Move P rnd) = Some (Move P rnd)"
    by (subst relocate.simps) (simp add: brief_clear [OF sh])
  with True have "TryEat P s a sc rnd = Some (?s, fst (Move P rnd), Inc sc, snd (Move P rnd))"
    by (simp add: TryEat_def eats_def Let_def appleRadius_def snakeWidth_def quo_def
        split: prod.splits)
  with sh show ?thesis by blast
qed

lemma Score_Update_brief:
  "brief sn \<Longrightarrow> 0 < iframes sc \<Longrightarrow> 0 < hunger sc \<Longrightarrow>
     Score_Update P sn sc = sc\<lparr>iframes := iframes sc - 1, hunger := hunger sc - 1\<rparr>"
  by (simp add: Score_Update_def Let_def brief_clear)

text \<open>One pass of the loop of \<open>update\<close> over snakes that cannot collide.\<close>

lemma updateLoop_brief:
  assumes "\<forall>s \<in> set ss. brief s \<and> state s \<noteq> Growing"
    and "int (length ss) \<le> iframes sc" and "int (length ss) \<le> hunger sc"
    and "hunger sc \<le> HungerPeriod" and "int (length ss) \<le> HungerPeriod"
  shows "\<exists>ss' a' sc' rnd'. updateLoop P frm pads ss a sc rnd = Some (ss', a', sc', rnd') \<and>
     iframes sc' = iframes sc - int (length ss) \<and>
     val sc \<le> val sc' \<and>
     (val sc' = val sc \<longrightarrow> hunger sc' = hunger sc - int (length ss))"
  using assms
proof (induction ss arbitrary: a sc rnd)
  case Nil
  show ?case by simp
next
  case (Cons s ss)
  obtain s1 rnd1 where u: "Snake_Update P frm a (pads (Peer s)) s rnd = (s1, rnd1)"
    by (cases "Snake_Update P frm a (pads (Peer s)) s rnd")
  from Cons.prems have "brief s" "state s \<noteq> Growing" by simp_all
  from brief_Snake_Update [OF this, of P frm a "pads (Peer s)" rnd] u have s1: "brief s1" by simp
  from TryEat_brief [OF s1, of P a sc rnd1] obtain s2 a2 rnd2 sc2
    where s2: "brief s2" and t: "TryEat P s1 a sc rnd1 = Some (s2, a2, sc2, rnd2)"
      and sc2: "sc2 = sc \<or> sc2 = Inc sc"
    by blast
  let ?sc3 = "Score_Update P s2 sc2"
  from sc2 Cons.prems have pos: "0 < iframes sc2" "0 < hunger sc2"
    by (auto simp: Inc_def HungerPeriod_def)
  from Score_Update_brief [OF s2 pos, of P]
  have sc3: "?sc3 = sc2\<lparr>iframes := iframes sc2 - 1, hunger := hunger sc2 - 1\<rparr>" .
  have pre: "\<forall>s \<in> set ss. brief s \<and> state s \<noteq> Growing" "int (length ss) \<le> iframes ?sc3"
    "int (length ss) \<le> hunger ?sc3" "hunger ?sc3 \<le> HungerPeriod" "int (length ss) \<le> HungerPeriod"
    using Cons.prems sc2 by (auto simp: sc3 Inc_def)
  from Cons.IH [OF pre, of a2 rnd2] obtain ss' a' sc' rnd'
    where r: "updateLoop P frm pads ss a2 ?sc3 rnd2 = Some (ss', a', sc', rnd')"
      and i: "iframes sc' = iframes ?sc3 - int (length ss)"
      and v: "val ?sc3 \<le> val sc'"
      and h: "val sc' = val ?sc3 \<longrightarrow> hunger sc' = hunger ?sc3 - int (length ss)"
    by blast
  have "updateLoop P frm pads (s # ss) a sc rnd = Some (s2 # ss', a', sc', rnd')"
    by (simp add: u t r)
  moreover from i sc2 have "iframes sc' = iframes sc - int (length (s # ss))"
    by (auto simp: sc3 Inc_def)
  moreover from v sc2 have "val sc \<le> val sc'" by (auto simp: sc3 Inc_def)
  moreover from v h sc2 have "val sc' = val sc \<longrightarrow> hunger sc' = hunger sc - int (length (s # ss))"
    by (auto simp: sc3 Inc_def)
  ultimately show ?case by blast
qed

lemma brief_NewSnake: "brief (NewSnake P peer) \<and> state (NewSnake P peer) \<noteq> Growing"
  by (simp add: brief_def NewSnake_def Let_def)

lemma far0: "(8::real) < sqrt 314"
  by (rule real_less_rsqrt) simp

lemma far1: "(8::real) < sqrt 914"
  by (rule real_less_rsqrt) simp

lemma tick_two:
  "map_option score (update exact (\<lambda>peer. None) (boot exact [0, 1] (sconst 7))) =
     Some \<lparr>val = 0, iframes = 58, hunger = 358\<rparr>"
  by (simp add: update_def boot_def NewApple_def Move_exact NewSnake_def Let_def NewScore_def
      Snake_Update_def rem_def quo_def period_def updateMouth_def updateEye_def exact_simps
      normalizeX_def normalizeY_def segmentLen_def snakeWidth_def TryEat_def appleRadius_def
      far0 far1 Score_Update_def Collides_def IFrames_def HungerPeriod_def toward_zero_def)

text \<open>
  C1 does not hold of the program: \<open>update\<close> calls \<open>Score.Update\<close> inside its loop
  over the snakes, so the score is advanced once per snake. The first tick after a boot
  with \<open>n\<close> peers (at most 60) returns, and has counted \<open>iframes\<close> down \<open>n\<close> times;
  unless a snake ate, it has counted \<open>hunger\<close> down \<open>n\<close> times as well. With two peers
  the counters stand at 58 and 358 after one frame, not at 59 and 359.
\<close>

theorem update_per_snake:
  "length peers \<le> 60 \<Longrightarrow>
     \<exists>g'. update P pads (boot P peers rnd) = Some g' \<and>
          iframes (score g') = IFrames - int (length peers) \<and>
          (val (score g') = 0 \<longrightarrow> hunger (score g') = HungerPeriod - int (length peers))"
proof -
  assume n: "length peers \<le> 60"
  obtain a0 rnd0 where b: "NewApple P rnd = (a0, rnd0)" by (cases "NewApple P rnd")
  have g: "boot P peers rnd =
      \<lparr>frame = 0, apple = a0, snakes = map (NewSnake P) peers, score = NewScore, random = rnd0\<rparr>"
    by (simp add: boot_def b)
  have pre: "\<forall>s \<in> set (map (NewSnake P) peers). brief s \<and> state s \<noteq> Growing"
    "int (length (map (NewSnake P) peers)) \<le> iframes NewScore"
    "int (length (map (NewSnake P) peers)) \<le> hunger NewScore"
    "hunger NewScore \<le> HungerPeriod" "int (length (map (NewSnake P) peers)) \<le> HungerPeriod"
    using n by (auto simp: brief_NewSnake NewScore_def IFrames_def HungerPeriod_def)
  from updateLoop_brief [OF pre, of P 1 pads a0 rnd0] obtain ss' a' sc' rnd'
    where r: "updateLoop P 1 pads (map (NewSnake P) peers) a0 NewScore rnd0 = Some (ss', a', sc', rnd')"
      and i: "iframes sc' = iframes NewScore - int (length peers)"
      and v: "val NewScore \<le> val sc'"
      and h: "val sc' = val NewScore \<longrightarrow> hunger sc' = hunger NewScore - int (length peers)"
    by auto
  have "update P pads (boot P peers rnd) =
      Some \<lparr>frame = 1, apple = a', snakes = ss', score = sc', random = rnd'\<rparr>"
    by (simp add: update_def g r)
  with i h show ?thesis by (simp add: NewScore_def)
qed

theorem update_per_snake_witness:
  "length [0, 1 :: 8 word] \<le> 60 \<and>
   (\<exists>g'. update exact (\<lambda>peer. None) (boot exact [0, 1] (sconst 7)) = Some g' \<and>
         iframes (score g') = 58) \<and>
   map_option score (update exact (\<lambda>peer. None) (boot exact [0, 1] (sconst 7))) =
     Some \<lparr>val = 0, iframes = 58, hunger = 358\<rparr>"
  using update_per_snake [of "[0, 1]" exact "\<lambda>peer. None" "sconst 7"] tick_two
  by (auto simp: IFrames_def)

subsection \<open>The turn of the direction\<close>









subsection \<open>The screen invariant\<close>

text \<open>
  The invariant of a game is kept by every step of a run, on every platform that is
  tame.
\<close>

lemma uint_mod_bound:
  "0 < n \<Longrightarrow> n < 2 ^ 32 \<Longrightarrow> 0 \<le> uint ((r :: u32) mod word_of_int n) \<and> uint (r mod word_of_int n) < n"
proof -
  assume n: "0 < n" "n < 2 ^ 32"
  then have u: "uint (word_of_int n :: u32) = n"
    by (simp add: uint_word_of_int take_bit_int_eq_self)
  have "uint (r mod word_of_int n) = uint r mod n"
    by (simp add: uint_mod_distrib u)
  with n show ?thesis by simp
qed

lemma Move_margin: "tame P \<Longrightarrow> margin P (Pos (fst (Move P rnd)))"
proof -
  assume t: "tame P"
  then have w: "0 < Width P - appleRadius * 2" "Width P - appleRadius * 2 < 2 ^ 32"
    and h: "0 < Height P - appleRadius * 2" "Height P - appleRadius * 2 < 2 ^ 32"
    by (simp_all add: tame_def segmentLen_def appleRadius_def)
  from uint_mod_bound [OF w, of "shd rnd"] uint_mod_bound [OF h, of "shd (stl rnd)"]
  show ?thesis by (simp add: Move_def Let_def margin_def appleRadius_def)
qed

lemma normalizeX_range:
  "0 \<le> x \<Longrightarrow> x < Width P \<Longrightarrow> \<bar>d\<bar> \<le> Width P \<Longrightarrow>
     0 \<le> normalizeX P (x + d) \<and> normalizeX P (x + d) < Width P"
  by (auto simp: normalizeX_def)

lemma normalizeY_range:
  "0 \<le> y \<Longrightarrow> y < Height P \<Longrightarrow> \<bar>d\<bar> \<le> Height P \<Longrightarrow>
     0 \<le> normalizeY P (y - d) \<and> normalizeY P (y - d) < Height P"
  by (auto simp: normalizeY_def)

lemma Head_in_chain: "Head seg \<in> set (chain seg)"
  by (induction seg rule: chain.induct) simp_all

lemma projected_onScreen:
  assumes "tame P" and "onScreen P (Head (SnakeHead s))" and "Dir s \<in> dirs P"
  shows "onScreen P (projected P s)"
proof -
  from assms(1,3) have
    "\<bar>f32_to_int P (f32_mul P (Cos P (Dir s)) (f32_const P 14))\<bar> \<le> Width P"
    "\<bar>f32_to_int P (f32_mul P (Sin P (Dir s)) (f32_const P 14))\<bar> \<le> Height P"
    by (simp_all add: tame_def segmentLen_def)
  with assms(2) show ?thesis
    using normalizeX_range [of "X (Head (SnakeHead s))" P] normalizeY_range [of "Y (Head (SnakeHead s))" P]
    by (simp add: onScreen_def projected_def)
qed

lemma firm_shift:
  assumes "tame P" and "firm P s"
  shows "firm P (Snake_shift P s)"
proof -
  from assms(2) have h: "onScreen P (Head (SnakeHead s))" and d: "Dir s \<in> dirs P"
    using Head_in_chain [of "SnakeHead s"] by (simp_all add: firm_def)
  note p = projected_onScreen [OF assms(1) h d]
  have "set (butlast (chain (SnakeHead s))) \<subseteq> set (chain (SnakeHead s))"
    by (auto dest: in_set_butlastD)
  with p assms(2) show ?thesis
    by (auto simp: firm_def shift_head chain_shiftLoop)
qed

lemma rem_bound: "\<bar>rem frm period\<bar> < period"
proof -
  have "\<bar>frm\<bar> - 10 * (\<bar>frm\<bar> div 10) = \<bar>frm\<bar> mod 10" by (simp add: minus_mult_div_eq_mod)
  moreover have "0 \<le> \<bar>frm\<bar> mod 10" "\<bar>frm\<bar> mod 10 < 10" by simp_all
  ultimately show ?thesis
    by (cases "frm < 0") (auto simp: rem_def quo_def period_def)
qed

lemma firm_updateMouth:
  assumes "tame P" and "firm P s" and "\<bar>frm\<bar> < period"
  shows "firm P (updateMouth P frm s)"
proof -
  from assms(2) have h: "onScreen P (Head (SnakeHead s))" and d: "Dir s \<in> dirs P"
    using Head_in_chain [of "SnakeHead s"] by (simp_all add: firm_def)
  from assms(1,3) d have
    "\<bar>f32_to_int P (f32_mul P (Cos P (Dir s)) (headLen P frm))\<bar> \<le> Width P"
    "\<bar>f32_to_int P (f32_mul P (Sin P (Dir s)) (headLen P frm))\<bar> \<le> Height P"
    by (simp_all add: tame_def)
  with h assms(2) show ?thesis
    using normalizeX_range [of "X (Head (SnakeHead s))" P] normalizeY_range [of "Y (Head (SnakeHead s))" P]
    by (simp add: firm_def onScreen_def updateMouth_def Let_def headLen_def)
qed

lemma updateEye_Dir: "Dir (fst (updateEye P ap s rnd)) = Dir s"
  by (simp add: updateEye_def Let_def)

lemma updateEye_Eye:
  "Eye (fst (updateEye P ap s rnd)) =
     \<lparr>X = X (Mouth s) + lookX P (X ap - X (Mouth s)) (Y ap - Y (Mouth s)),
      Y = Y (Mouth s) + lookY P (X ap - X (Mouth s)) (Y ap - Y (Mouth s))\<rparr>"
  by (simp add: updateEye_def Let_def lookX_def lookY_def)

lemma sound_updateEye:
  assumes t: "tame P" and s: "firm P s" and m: "margin P ap"
  shows "sound P (fst (updateEye P ap s rnd))"
proof -
  let ?a = "X ap - X (Mouth s)" and ?b = "Y ap - Y (Mouth s)"
  let ?s = "fst (updateEye P ap s rnd)"
  from s have f: "firm P ?s"
    by (simp add: firm_def updateEye_fields updateEye_Dir)
  from s have mo: "0 \<le> X (Mouth s)" "X (Mouth s) < Width P" "0 \<le> Y (Mouth s)" "Y (Mouth s) < Height P"
    by (simp_all add: firm_def onScreen_def)
  from m have ma: "5 \<le> X ap" "X ap < Width P - 5" "5 \<le> Y ap" "Y ap < Height P - 5"
    by (simp_all add: margin_def appleRadius_def)
  show ?thesis
  proof (cases "?a = 0 \<and> ?b = 0")
    case True
    then have "Mouth s = ap" by simp
    with m True have "eyeOnApple P ?s"
      by (simp add: eyeOnApple_def updateEye_fields updateEye_Eye)
    with f show ?thesis by (simp add: sound_def)
  next
    case False
    moreover from mo ma have "\<bar>?a\<bar> < Width P" "\<bar>?b\<bar> < Height P" by linarith+
    ultimately have "(?a \<noteq> 0 \<or> ?b \<noteq> 0) \<and> \<bar>?a\<bar> < Width P \<and> \<bar>?b\<bar> < Height P" by blast
    with t have x: "\<bar>lookX P ?a ?b\<bar> \<le> 3" "0 < ?a \<longrightarrow> 0 \<le> lookX P ?a ?b" "?a < 0 \<longrightarrow> lookX P ?a ?b \<le> 0"
      and y: "\<bar>lookY P ?a ?b\<bar> \<le> 3" "0 < ?b \<longrightarrow> 0 \<le> lookY P ?a ?b" "?b < 0 \<longrightarrow> lookY P ?a ?b \<le> 0"
      unfolding tame_def by blast+
    have ex: "0 \<le> X (Mouth s) + lookX P ?a ?b \<and> X (Mouth s) + lookX P ?a ?b < Width P"
      using x mo(1,2) ma(1,2) by (cases "X (Mouth s) < 3"; cases "Width P - 3 \<le> X (Mouth s)") auto
    have ey: "0 \<le> Y (Mouth s) + lookY P ?a ?b \<and> Y (Mouth s) + lookY P ?a ?b < Height P"
      using y mo(3,4) ma(3,4) by (cases "Y (Mouth s) < 3"; cases "Height P - 3 \<le> Y (Mouth s)") auto
    from ex ey have "onScreen P (Eye ?s)" by (simp add: onScreen_def updateEye_Eye)
    with f show ?thesis by (simp add: sound_def)
  qed
qed

lemma sound_Snake_Update:
  assumes t: "tame P" and s: "firm P s" and m: "margin P (Pos a)"
  shows "sound P (fst (Snake_Update P frm a pad s rnd))"
proof -
  define s1 where "s1 = (case pad of Some azimuth \<Rightarrow> setDir P azimuth s | None \<Rightarrow> s)"
  define s2 where "s2 = (if rem frm period = 0 then Snake_shift P s1 else s1)"
  define s3 where "s3 = updateMouth P (rem frm period) s2"
  have 1: "firm P s1"
  proof (cases pad)
    case None
    with s show ?thesis by (simp add: s1_def)
  next
    case (Some az)
    from setDir_Dir [of P az s] obtain d where e: "setDir P az s = s\<lparr>Dir := d\<rparr>" ..
    from s have "Dir (setDir P az s) \<in> dirs P" by (simp add: firm_def dirs.turn)
    with e have "d \<in> dirs P" by simp
    with s Some e show ?thesis by (simp add: s1_def firm_def)
  qed
  have 2: "firm P s2"
    using 1 firm_shift [OF t 1] by (simp add: s2_def)
  have 3: "firm P s3"
    unfolding s3_def by (rule firm_updateMouth [OF t 2 rem_bound])
  have "Snake_Update P frm a pad s rnd = updateEye P (Pos a) s3 rnd"
    by (simp add: Snake_Update_def Let_def s1_def s2_def s3_def)
  with sound_updateEye [OF t 3 m] show ?thesis by simp
qed

lemma relocate_margin:
  assumes r: "relocate P s ar = Some ar'" and t: "tame P" and m: "margin P (Pos (fst ar))"
  shows "margin P (Pos (fst ar'))"
proof -
  have "(\<lambda>x y. tame (fst (fst x)) \<longrightarrow> margin (fst (fst x)) (Pos (fst (snd x)))
          \<longrightarrow> margin (fst (fst x)) (Pos (fst y))) ((P, s), ar) ar'"
  proof (rule relocate.raw_induct [OF _ r])
    fix rel and P :: "'a platform" and s ar y
    assume IH: "\<And>s ar b y. rel s ar b = Some y \<Longrightarrow>
        tame (fst (fst ((s, ar), b))) \<longrightarrow> margin (fst (fst ((s, ar), b))) (Pos (fst (snd ((s, ar), b))))
          \<longrightarrow> margin (fst (fst ((s, ar), b))) (Pos (fst y))"
      and step: "(if Collides P s (Pos (fst ar)) then rel P s (Move P (snd ar)) else Some ar) = Some y"
    show "tame (fst (fst ((P, s), ar))) \<longrightarrow> margin (fst (fst ((P, s), ar))) (Pos (fst (snd ((P, s), ar))))
          \<longrightarrow> margin (fst (fst ((P, s), ar))) (Pos (fst y))"
    proof (cases "Collides P s (Pos (fst ar))")
      case True
      with step have "rel P s (Move P (snd ar)) = Some y" by simp
      from IH [OF this] show ?thesis by (simp add: Move_margin)
    next
      case False
      with step show ?thesis by simp
    qed
  qed
  with t m show ?thesis by simp
qed

lemma sound_TryEat:
  assumes r: "TryEat P s a sc rnd = Some (s', a', sc', rnd')"
    and t: "tame P" and s: "sound P s" and m: "margin P (Pos a)"
  shows "sound P s' \<and> margin P (Pos a')"
proof (cases "eats P s a")
  case False
  then have "TryEat P s a sc rnd = Some (s, a, sc, rnd)"
    by (simp add: TryEat_def eats_def Let_def appleRadius_def snakeWidth_def quo_def)
  with r s m show ?thesis by simp
next
  case True
  with r have s': "s' = s\<lparr>state := Eating\<rparr>"
    and rel: "relocate P (s\<lparr>state := Eating\<rparr>) (Move P rnd) = Some (a', rnd')"
    by (auto simp: TryEat_def eats_def Let_def appleRadius_def snakeWidth_def quo_def
        split: option.splits)
  from relocate_margin [OF rel t] Move_margin [OF t, of rnd] have "margin P (Pos a')" by simp
  with s s' show ?thesis by (simp add: sound_def firm_def eyeOnApple_def)
qed

lemma sound_firm: "sound P s \<Longrightarrow> firm P s"
  by (simp add: sound_def)

lemma sound_updateLoop:
  assumes "updateLoop P frm pads ss a sc rnd = Some (ss', a', sc', rnd')"
    and "tame P" and "\<forall>s \<in> set ss. sound P s" and "margin P (Pos a)"
  shows "(\<forall>s \<in> set ss'. sound P s) \<and> margin P (Pos a')"
  using assms
proof (induction ss arbitrary: a sc rnd ss')
  case Nil
  then show ?case by simp
next
  case (Cons s ss)
  obtain s1 rnd1 where u: "Snake_Update P frm a (pads (Peer s)) s rnd = (s1, rnd1)"
    by (cases "Snake_Update P frm a (pads (Peer s)) s rnd")
  from Cons.prems have t: "tame P" and so: "firm P s" and m: "margin P (Pos a)"
    by (simp_all add: sound_firm)
  from sound_Snake_Update [OF t so m, of frm "pads (Peer s)" rnd] u have s1: "sound P s1" by simp
  from Cons.prems(1) u obtain s2 a2 sc2 rnd2 rest
    where e: "TryEat P s1 a sc rnd1 = Some (s2, a2, sc2, rnd2)"
      and l: "updateLoop P frm pads ss a2 (Score_Update P s2 sc2) rnd2 = Some (rest, a', sc', rnd')"
      and ss': "ss' = s2 # rest"
    by (simp split: option.splits prod.splits)
  from sound_TryEat [OF e t s1 m] have s2: "sound P s2" and m2: "margin P (Pos a2)" by simp_all
  from Cons.IH [OF l t _ m2] Cons.prems(3) have "(\<forall>s \<in> set rest. sound P s) \<and> margin P (Pos a')"
    by simp
  with s2 ss' show ?case by simp
qed

lemma sound_NewSnake:
  assumes "tame P" and "10 + snakeWidth + uint peer * 20 < Height P"
  shows "sound P (NewSnake P peer)"
proof -
  from assms(1) have "28 < Width P" "10 < Height P"
    by (simp_all add: tame_def segmentLen_def appleRadius_def)
  with assms(2) show ?thesis
    by (simp add: sound_def firm_def NewSnake_def Let_def onScreen_def segmentLen_def
        snakeWidth_def dirs.start)
qed

lemma safe_boot: "tame P \<Longrightarrow> fits P peers \<Longrightarrow> safe P (boot P peers rnd)"
proof -
  assume t: "tame P" and f: "fits P peers"
  have "margin P (Pos (fst (NewApple P rnd)))"
    unfolding NewApple_def by (rule Move_margin [OF t])
  moreover from f have "\<forall>s \<in> set (map (NewSnake P) peers). sound P s"
    by (auto simp: fits_def list_all_iff intro: sound_NewSnake [OF t])
  ultimately show ?thesis
    by (cases "NewApple P rnd") (simp add: safe_def boot_def)
qed

lemma safe_update: "tame P \<Longrightarrow> safe P g \<Longrightarrow> update P pads g = Some g' \<Longrightarrow> safe P g'"
proof -
  assume t: "tame P" and s: "safe P g" and u: "update P pads g = Some g'"
  from u obtain ss a sc rnd
    where l: "updateLoop P (frame g + 1) pads (snakes g) (apple g) (score g) (random g) =
        Some (ss, a, sc, rnd)"
      and g': "g' = \<lparr>frame = frame g + 1, apple = a, snakes = ss, score = sc, random = rnd\<rparr>"
    by (auto simp: update_def Let_def split: option.splits)
  from s have "\<forall>s \<in> set (snakes g). sound P s" "margin P (Pos (apple g))"
    by (simp_all add: safe_def)
  from sound_updateLoop [OF l t this] g' show ?thesis by (simp add: safe_def)
qed

lemma safe_cheat: "tame P \<Longrightarrow> safe P g \<Longrightarrow> safe P (snd (cheat P c v g))"
proof -
  assume t: "tame P" and s: "safe P g"
  show ?thesis
  proof (cases "c = 1")
    case True
    from Move_margin [OF t, of "random g"] s True show ?thesis
      by (cases "Move P (random g)") (simp add: safe_def cheat_def)
  next
    case False
    with s show ?thesis by (simp add: safe_def cheat_def Let_def)
  qed
qed

lemma reachable_safe: "reachable P peers g \<Longrightarrow> tame P \<Longrightarrow> fits P peers \<Longrightarrow> safe P g"
proof (induction rule: reachable.induct)
  case (booted rnd)
  then show ?case by (rule safe_boot)
next
  case (updated g pads g')
  from updated.prems have "safe P g" by (rule updated.IH)
  from safe_update [OF updated.prems(1) this updated.hyps(2)] show ?case .
next
  case (cheated g c v)
  from cheated.prems have "safe P g" by (rule cheated.IH)
  from safe_cheat [OF cheated.prems(1) this] show ?case .
qed

lemma margin_onScreen: "margin P p \<Longrightarrow> onScreen P p"
  by (simp add: margin_def onScreen_def appleRadius_def)

lemma eyeOnApple_onScreen:
  "eyeOnApple P s \<Longrightarrow> \<bar>lookX P 0 0\<bar> \<le> appleRadius \<Longrightarrow> \<bar>lookY P 0 0\<bar> \<le> appleRadius \<Longrightarrow>
     onScreen P (Eye s)"
  by (auto simp: eyeOnApple_def margin_def onScreen_def appleRadius_def)

text \<open>
  The platform that keeps NaN is tame, whatever the conversion of NaN is, and the
  first frame of the game whose apple was placed at \<open>(29, 17)\<close> runs on it as said.
\<close>

lemma with_nan_simps:
  "Width (with_nan n) = 240" "Height (with_nan n) = 160"
  "Cos (with_nan n) = map_option cos" "Sin (with_nan n) = map_option sin"
  "Hypot (with_nan n) = lift2 (\<lambda>x y. sqrt (x * x + y * y))"
  "IsNaN (with_nan n) = (\<lambda>x. x = None)"
  "f32_const (with_nan n) = (\<lambda>q. Some (of_rat q))"
  "f32_of_int (with_nan n) = (\<lambda>k. Some (of_int k))"
  "f32_to_int (with_nan n) = nan_to_int n"
  "f32_add (with_nan n) = lift2 (+)" "f32_sub (with_nan n) = lift2 (-)"
  "f32_mul (with_nan n) = lift2 (*)" "f32_div (with_nan n) = nan_div"
  "f32_neg (with_nan n) = map_option uminus" "f32_lt (with_nan n) = nan_lt"
  "Pi (with_nan n) = Some pi" "Tau (with_nan n) = Some (2 * pi)"
  by (simp_all add: with_nan_def)

lemma lift2_Some: "lift2 f x y \<noteq> None \<Longrightarrow> \<exists>a b. x = Some a \<and> y = Some b"
  by (cases x; cases y) simp_all

lemma dirs_Some: "d \<in> dirs (with_nan n) \<Longrightarrow> \<exists>r. d = Some r"
proof (induction rule: dirs.induct)
  case start
  show ?case by (simp add: with_nan_simps)
next
  case (turn s azimuth)
  then obtain r where r: "Dir s = Some r" by blast
  show ?case
  proof (cases azimuth)
    case None
    with r show ?thesis by (simp add: setDir_def with_nan_simps)
  next
    case (Some a)
    with r show ?thesis by (simp add: setDir_def with_nan_simps Let_def)
  qed
qed

lemma Move_with_nan:
  "Move (with_nan n) rnd =
     (\<lparr>Pos = \<lparr>X = uint (shd rnd mod 230) + 5, Y = uint (shd (stl rnd) mod 150) + 5\<rparr>\<rparr>,
      stl (stl rnd))"
  by (simp add: Move_def Let_def with_nan_simps appleRadius_def)

lemma toward_zero_bound: "\<bar>x\<bar> \<le> of_int n \<Longrightarrow> \<bar>toward_zero x\<bar> \<le> n"
proof (cases "0 \<le> x")
  case True
  assume "\<bar>x\<bar> \<le> of_int n"
  with True have "\<lfloor>x\<rfloor> \<le> n" "0 \<le> \<lfloor>x\<rfloor>" by (simp_all add: floor_le_iff)
  with True show ?thesis by (simp add: toward_zero_def)
next
  case False
  assume "\<bar>x\<bar> \<le> of_int n"
  with False have "- n \<le> \<lceil>x\<rceil>" "\<lceil>x\<rceil> \<le> 0" by (simp_all add: le_ceiling_iff ceiling_le_iff)
  with False show ?thesis by (simp add: toward_zero_def)
qed

lemma toward_zero_sign:
  "0 \<le> x \<Longrightarrow> 0 \<le> toward_zero x" "x \<le> 0 \<Longrightarrow> toward_zero x \<le> 0"
  by (auto simp: toward_zero_def ceiling_le_iff)

lemma look_ratio: "\<bar>a * 3 / sqrt (a * a + b * b)\<bar> \<le> (3::real)"
proof (cases "sqrt (a * a + b * b) = 0")
  case True
  then show ?thesis by simp
next
  case False
  have "0 \<le> sqrt (a * a + b * b)" by simp
  with False have p: "0 < sqrt (a * a + b * b)" by linarith
  have "\<bar>a\<bar> = sqrt (a * a)" by simp
  also have "\<dots> \<le> sqrt (a * a + b * b)" by (rule real_sqrt_le_mono) simp
  finally have "\<bar>a\<bar> * 3 \<le> 3 * sqrt (a * a + b * b)" by simp
  with p show ?thesis by (simp add: abs_mult pos_divide_le_eq)
qed

lemma look_ratio': "\<bar>b * 3 / sqrt (a * a + b * b)\<bar> \<le> (3::real)"
  using look_ratio [of b a] by (simp add: add.commute)

lemma hypot_nonzero:
  "a \<noteq> 0 \<or> b \<noteq> 0 \<Longrightarrow> sqrt (real_of_int a * real_of_int a + real_of_int b * real_of_int b) \<noteq> 0"
proof -
  assume n: "a \<noteq> 0 \<or> b \<noteq> 0"
  have "0 \<le> real_of_int a * real_of_int a" "0 \<le> real_of_int b * real_of_int b" by simp_all
  moreover from n have "0 < real_of_int a * real_of_int a \<or> 0 < real_of_int b * real_of_int b"
    by (auto simp: zero_less_mult_iff)
  ultimately have "0 < real_of_int a * real_of_int a + real_of_int b * real_of_int b" by linarith
  then have "0 < sqrt (real_of_int a * real_of_int a + real_of_int b * real_of_int b)"
    by (rule real_sqrt_gt_zero)
  then show ?thesis by linarith
qed

lemma step_bound:
  assumes "\<bar>c\<bar> \<le> (1::real)" and "\<bar>l\<bar> \<le> 14" and "14 \<le> m"
  shows "\<bar>toward_zero (c * l)\<bar> \<le> m"
proof (rule toward_zero_bound)
  have "\<bar>c\<bar> * \<bar>l\<bar> \<le> 1 * 14" by (rule mult_mono [OF assms(1,2)]) simp_all
  then have "\<bar>c * l\<bar> \<le> 14" by (simp add: abs_mult)
  with assms(3) show "\<bar>c * l\<bar> \<le> real_of_int m" by linarith
qed

lemma headLen_with_nan:
  "\<bar>frm\<bar> < 10 \<Longrightarrow> \<exists>l. headLen (with_nan n) frm = Some l \<and> \<bar>l\<bar> \<le> 14"
proof -
  assume "\<bar>frm\<bar> < 10"
  then have "\<bar>real_of_int frm\<bar> \<le> 10" by linarith
  then have b: "\<bar>14 * real_of_int frm / 10\<bar> \<le> 14" by (simp add: abs_mult)
  have e: "headLen (with_nan n) frm = Some (14 * real_of_int frm / 10)"
    by (simp add: headLen_def with_nan_simps segmentLen_def period_def)
  from e b show ?thesis by blast
qed

lemma look_with_nan:
  assumes "a \<noteq> 0 \<or> b \<noteq> 0"
  shows "lookX (with_nan n) a b =
           toward_zero (real_of_int a * 3 / sqrt (real_of_int a * real_of_int a + real_of_int b * real_of_int b))"
    and "lookY (with_nan n) a b =
           toward_zero (real_of_int b * 3 / sqrt (real_of_int a * real_of_int a + real_of_int b * real_of_int b))"
  using assms by (auto simp: lookX_def lookY_def with_nan_simps)

lemma look_origin: "lookX (with_nan n) 0 0 = n" "lookY (with_nan n) 0 0 = n"
  by (simp_all add: lookX_def lookY_def with_nan_simps)

lemma tame_with_nan: "tame (with_nan n)"
proof -
  have st: "\<bar>nan_to_int n (lift2 (*) (map_option cos d) (Some 14))\<bar> \<le> 240 \<and>
            \<bar>nan_to_int n (lift2 (*) (map_option sin d) (Some 14))\<bar> \<le> 160"
    if "d \<in> dirs (with_nan n)" for d
  proof -
    from dirs_Some [OF that] obtain r where "d = Some r" ..
    then show ?thesis by (simp add: step_bound)
  qed
  have mo: "\<bar>nan_to_int n (lift2 (*) (map_option cos d) (headLen (with_nan n) frm))\<bar> \<le> 240 \<and>
            \<bar>nan_to_int n (lift2 (*) (map_option sin d) (headLen (with_nan n) frm))\<bar> \<le> 160"
    if "d \<in> dirs (with_nan n)" and "\<bar>frm\<bar> < 10" for d frm
  proof -
    from dirs_Some [OF that(1)] obtain r where r: "d = Some r" ..
    from headLen_with_nan [OF that(2)] obtain l
      where l: "headLen (with_nan n) frm = Some l" "\<bar>l\<bar> \<le> 14" by blast
    from r l show ?thesis by (simp add: step_bound)
  qed
  have lx: "\<bar>lookX (with_nan n) a b\<bar> \<le> 3 \<and> (0 < a \<longrightarrow> 0 \<le> lookX (with_nan n) a b) \<and>
            (a < 0 \<longrightarrow> lookX (with_nan n) a b \<le> 0)"
    if "a \<noteq> 0 \<or> b \<noteq> 0" for a b
  proof -
    let ?q = "real_of_int a * 3 / sqrt (real_of_int a * real_of_int a + real_of_int b * real_of_int b)"
    have "\<bar>toward_zero ?q\<bar> \<le> 3" by (rule toward_zero_bound) (use look_ratio in simp)
    moreover have "0 \<le> toward_zero ?q" if "0 < a"
      by (rule toward_zero_sign) (use that in simp)
    moreover have "toward_zero ?q \<le> 0" if "a < 0"
      by (rule toward_zero_sign) (use that in \<open>simp add: divide_nonpos_nonneg\<close>)
    ultimately show ?thesis by (simp add: look_with_nan [OF that])
  qed
  have ly: "\<bar>lookY (with_nan n) a b\<bar> \<le> 3 \<and> (0 < b \<longrightarrow> 0 \<le> lookY (with_nan n) a b) \<and>
            (b < 0 \<longrightarrow> lookY (with_nan n) a b \<le> 0)"
    if "a \<noteq> 0 \<or> b \<noteq> 0" for a b
  proof -
    let ?q = "real_of_int b * 3 / sqrt (real_of_int a * real_of_int a + real_of_int b * real_of_int b)"
    have "\<bar>toward_zero ?q\<bar> \<le> 3" by (rule toward_zero_bound) (use look_ratio' in simp)
    moreover have "0 \<le> toward_zero ?q" if "0 < b"
      by (rule toward_zero_sign) (use that in simp)
    moreover have "toward_zero ?q \<le> 0" if "b < 0"
      by (rule toward_zero_sign) (use that in \<open>simp add: divide_nonpos_nonneg\<close>)
    ultimately show ?thesis by (simp add: look_with_nan [OF that])
  qed
  have 1: "segmentLen * 2 < Width (with_nan n) \<and> Width (with_nan n) - appleRadius * 2 < 2 ^ 32 \<and>
      appleRadius * 2 < Height (with_nan n) \<and> Height (with_nan n) - appleRadius * 2 < 2 ^ 32"
    by (simp add: with_nan_simps segmentLen_def appleRadius_def)
  have 2: "\<forall>d \<in> dirs (with_nan n).
      \<bar>f32_to_int (with_nan n) (f32_mul (with_nan n) (Cos (with_nan n) d)
          (f32_const (with_nan n) (of_int segmentLen)))\<bar> \<le> Width (with_nan n) \<and>
      \<bar>f32_to_int (with_nan n) (f32_mul (with_nan n) (Sin (with_nan n) d)
          (f32_const (with_nan n) (of_int segmentLen)))\<bar> \<le> Height (with_nan n)"
    using st by (simp add: with_nan_simps segmentLen_def)
  have 3: "\<forall>d \<in> dirs (with_nan n). \<forall>frm. \<bar>frm\<bar> < period \<longrightarrow>
      \<bar>f32_to_int (with_nan n) (f32_mul (with_nan n) (Cos (with_nan n) d) (headLen (with_nan n) frm))\<bar>
          \<le> Width (with_nan n) \<and>
      \<bar>f32_to_int (with_nan n) (f32_mul (with_nan n) (Sin (with_nan n) d) (headLen (with_nan n) frm))\<bar>
          \<le> Height (with_nan n)"
    using mo by (simp add: with_nan_simps period_def)
  have 4: "\<forall>a b. (a \<noteq> 0 \<or> b \<noteq> 0) \<and> \<bar>a\<bar> < Width (with_nan n) \<and> \<bar>b\<bar> < Height (with_nan n) \<longrightarrow>
      \<bar>lookX (with_nan n) a b\<bar> \<le> 3 \<and> (0 < a \<longrightarrow> 0 \<le> lookX (with_nan n) a b) \<and>
      (a < 0 \<longrightarrow> lookX (with_nan n) a b \<le> 0) \<and>
      \<bar>lookY (with_nan n) a b\<bar> \<le> 3 \<and> (0 < b \<longrightarrow> 0 \<le> lookY (with_nan n) a b) \<and>
      (b < 0 \<longrightarrow> lookY (with_nan n) a b \<le> 0)"
    using lx ly by blast
  from 1 2 3 4 show ?thesis unfolding tame_def by blast
qed

lemma relocate_brief: "brief s \<Longrightarrow> relocate P s ar = Some ar"
  using relocate.simps [of P s ar] by (simp add: brief_clear)

lemma apple_tick_eq:
  "update (with_nan n) (\<lambda>peer. None) (boot (with_nan n) [0] (24 ## 12 ## sconst 7)) =
     Some (apple_tick n)"
  by (simp add: update_def boot_def NewApple_def Move_with_nan NewSnake_def Let_def NewScore_def
      Snake_Update_def rem_def quo_def period_def updateMouth_def updateEye_def with_nan_simps
      normalizeX_def normalizeY_def segmentLen_def snakeWidth_def TryEat_def appleRadius_def
      Score_Update_def Collides_def IFrames_def HungerPeriod_def toward_zero_def Inc_def
      relocate_brief brief_def apple_tick_def)

text \<open>
  C2, as the claim states it, fails in two ways, shown on the platform that keeps NaN
  and converts it to \<open>- 2 ^ 63\<close>. At boot, \<open>NewSnake\<close> puts the snake of peer \<open>n\<close> in
  row \<open>17 + 20 n\<close> and does not wrap it: on the 240 by 160 screen the snake of a ninth
  peer starts in row 177, below the screen. And in the first frame of a game of one
  peer whose apple was placed at \<open>(29, 17)\<close> the mouth moves onto the apple:
  \<open>updateEye\<close> divides zero by zero, converts the result and adds it to the mouth,
  and the eye it stores, which the program never wraps, is off the screen.
\<close>

theorem stored_onScreen_counterexample:
  "reachable (with_nan (- (2 ^ 63))) [0, 1, 2, 3, 4, 5, 6, 7, 8]
     (boot (with_nan (- (2 ^ 63))) [0, 1, 2, 3, 4, 5, 6, 7, 8] (sconst 7)) \<and>
   \<lparr>X = 28, Y = 177\<rparr> \<in> stored (boot (with_nan (- (2 ^ 63))) [0, 1, 2, 3, 4, 5, 6, 7, 8] (sconst 7)) \<and>
   \<not> onScreen (with_nan (- (2 ^ 63))) \<lparr>X = 28, Y = 177\<rparr> \<and>
   fits (with_nan (- (2 ^ 63))) [0] \<and>
   update (with_nan (- (2 ^ 63))) (\<lambda>peer. None) (boot (with_nan (- (2 ^ 63))) [0] (24 ## 12 ## sconst 7)) =
     Some (apple_tick (- (2 ^ 63))) \<and>
   reachable (with_nan (- (2 ^ 63))) [0] (apple_tick (- (2 ^ 63))) \<and>
   \<lparr>X = 29 - 2 ^ 63, Y = 17 - 2 ^ 63\<rparr> \<in> stored (apple_tick (- (2 ^ 63))) \<and>
   \<not> onScreen (with_nan (- (2 ^ 63))) \<lparr>X = 29 - 2 ^ 63, Y = 17 - 2 ^ 63\<rparr>"
proof -
  let ?P = "with_nan (- (2 ^ 63))"
  have 1: "reachable ?P [0, 1, 2, 3, 4, 5, 6, 7, 8] (boot ?P [0, 1, 2, 3, 4, 5, 6, 7, 8] (sconst 7))"
    by (rule booted)
  have 2: "\<lparr>X = 28, Y = 177\<rparr> \<in> stored (boot ?P [0, 1, 2, 3, 4, 5, 6, 7, 8] (sconst 7))"
    by (simp add: stored_def boot_def NewApple_def Move_with_nan NewSnake_def Let_def
        segmentLen_def snakeWidth_def)
  have 3: "\<not> onScreen ?P \<lparr>X = 28, Y = 177\<rparr>"
    by (simp add: onScreen_def with_nan_simps)
  have 4: "fits ?P [0]"
    by (simp add: fits_def with_nan_simps snakeWidth_def)
  have 5: "reachable ?P [0] (apple_tick (- (2 ^ 63)))"
    by (rule updated [OF booted apple_tick_eq])
  have 6: "\<lparr>X = 29 - 2 ^ 63, Y = 17 - 2 ^ 63\<rparr> \<in> stored (apple_tick (- (2 ^ 63)))"
    by (simp add: stored_def apple_tick_def)
  have 7: "\<not> onScreen ?P \<lparr>X = 29 - 2 ^ 63, Y = 17 - 2 ^ 63\<rparr>"
    by (simp add: onScreen_def with_nan_simps)
  from 1 2 3 4 5 6 7 apple_tick_eq [of "- (2 ^ 63)"] show ?thesis by blast
qed

text \<open>
  C2, amended. When the start row of every peer is on the screen and the platform is
  tame, every point stored in a reachable state (the apple, and the segment positions
  and the mouth of every snake) is on the screen, and so is the eye of every snake
  whose mouth was not on the apple when the eye was last set: the apple keeps five
  pixels from every edge and the eye is at most three pixels from the mouth, on the
  side of the apple. The eye of a snake whose mouth was on the apple is the mouth plus
  the two conversions of zero by zero; when these are at most the radius of the apple
  in magnitude, every stored point is on the screen.
\<close>

theorem stored_onScreen:
  "tame P \<Longrightarrow> fits P peers \<Longrightarrow> reachable P peers g \<Longrightarrow>
     (\<forall>p \<in> stored g. onScreen P p \<or> (\<exists>s \<in> set (snakes g). eyeOnApple P s \<and> p = Eye s)) \<and>
     (\<bar>lookX P 0 0\<bar> \<le> appleRadius \<and> \<bar>lookY P 0 0\<bar> \<le> appleRadius \<longrightarrow>
        (\<forall>p \<in> stored g. onScreen P p))"
proof -
  assume t: "tame P" and f: "fits P peers" and r: "reachable P peers g"
  from reachable_safe [OF r t f] have s: "safe P g" .
  have a: "onScreen P p \<or> (\<exists>s \<in> set (snakes g). eyeOnApple P s \<and> p = Eye s)"
    if "p \<in> stored g" for p
    using that s by (auto simp: safe_def stored_def sound_def firm_def margin_onScreen)
  have b: "onScreen P p"
    if "p \<in> stored g" and "\<bar>lookX P 0 0\<bar> \<le> appleRadius" and "\<bar>lookY P 0 0\<bar> \<le> appleRadius" for p
    using a [OF that(1)] that(2,3) by (auto intro: eyeOnApple_onScreen)
  from a b show ?thesis by blast
qed

text \<open>
  On the platform that converts NaN to \<open>- 2 ^ 63\<close> the state after the first frame
  has its apple, chain and mouth on the screen and its eye as the exception describes
  it; on the platform that converts NaN to zero all of its points are on the screen.
\<close>

theorem stored_onScreen_witness:
  "tame (with_nan (- (2 ^ 63))) \<and> fits (with_nan (- (2 ^ 63))) [0] \<and>
   reachable (with_nan (- (2 ^ 63))) [0] (apple_tick (- (2 ^ 63))) \<and>
   stored (apple_tick (- (2 ^ 63))) =
     {\<lparr>X = 12, Y = 12\<rparr>, \<lparr>X = 28, Y = 17\<rparr>, \<lparr>X = 14, Y = 17\<rparr>, \<lparr>X = 29, Y = 17\<rparr>,
      \<lparr>X = 29 - 2 ^ 63, Y = 17 - 2 ^ 63\<rparr>} \<and>
   onScreen (with_nan (- (2 ^ 63))) \<lparr>X = 12, Y = 12\<rparr> \<and>
   onScreen (with_nan (- (2 ^ 63))) \<lparr>X = 29, Y = 17\<rparr> \<and>
   eyeOnApple (with_nan (- (2 ^ 63))) (hd (snakes (apple_tick (- (2 ^ 63))))) \<and>
   Eye (hd (snakes (apple_tick (- (2 ^ 63))))) = \<lparr>X = 29 - 2 ^ 63, Y = 17 - 2 ^ 63\<rparr> \<and>
   tame (with_nan 0) \<and> fits (with_nan 0) [0] \<and> reachable (with_nan 0) [0] (apple_tick 0) \<and>
   \<bar>lookX (with_nan 0) 0 0\<bar> \<le> appleRadius \<and> \<bar>lookY (with_nan 0) 0 0\<bar> \<le> appleRadius \<and>
   stored (apple_tick 0) =
     {\<lparr>X = 12, Y = 12\<rparr>, \<lparr>X = 28, Y = 17\<rparr>, \<lparr>X = 14, Y = 17\<rparr>, \<lparr>X = 29, Y = 17\<rparr>} \<and>
   onScreen (with_nan 0) \<lparr>X = 12, Y = 12\<rparr> \<and> onScreen (with_nan 0) \<lparr>X = 28, Y = 17\<rparr> \<and>
   onScreen (with_nan 0) \<lparr>X = 14, Y = 17\<rparr> \<and> onScreen (with_nan 0) \<lparr>X = 29, Y = 17\<rparr>"
proof -
  have f: "fits (with_nan n) [0]" for n
    by (simp add: fits_def with_nan_simps snakeWidth_def)
  have r: "reachable (with_nan n) [0] (apple_tick n)" for n
    by (rule updated [OF booted apple_tick_eq])
  have s1: "stored (apple_tick (- (2 ^ 63))) =
     {\<lparr>X = 12, Y = 12\<rparr>, \<lparr>X = 28, Y = 17\<rparr>, \<lparr>X = 14, Y = 17\<rparr>, \<lparr>X = 29, Y = 17\<rparr>,
      \<lparr>X = 29 - 2 ^ 63, Y = 17 - 2 ^ 63\<rparr>}"
    by (auto simp: stored_def apple_tick_def)
  have s0: "stored (apple_tick 0) =
     {\<lparr>X = 12, Y = 12\<rparr>, \<lparr>X = 28, Y = 17\<rparr>, \<lparr>X = 14, Y = 17\<rparr>, \<lparr>X = 29, Y = 17\<rparr>}"
    by (auto simp: stored_def apple_tick_def)
  have e: "eyeOnApple (with_nan (- (2 ^ 63))) (hd (snakes (apple_tick (- (2 ^ 63)))))"
    by (simp add: eyeOnApple_def apple_tick_def margin_def with_nan_simps appleRadius_def
        look_origin)
  have y: "Eye (hd (snakes (apple_tick (- (2 ^ 63))))) = \<lparr>X = 29 - 2 ^ 63, Y = 17 - 2 ^ 63\<rparr>"
    by (simp add: apple_tick_def)
  have l: "\<bar>lookX (with_nan 0) 0 0\<bar> \<le> appleRadius" "\<bar>lookY (with_nan 0) 0 0\<bar> \<le> appleRadius"
    by (simp_all add: look_origin appleRadius_def)
  have n: "\<not> onScreen (with_nan (- (2 ^ 63))) \<lparr>X = 29 - 2 ^ 63, Y = 17 - 2 ^ 63\<rparr>"
    by (simp add: onScreen_def with_nan_simps)
  from stored_onScreen [OF tame_with_nan f r, of "- (2 ^ 63)"] s1
  have a: "onScreen (with_nan (- (2 ^ 63))) \<lparr>X = 12, Y = 12\<rparr>"
      "onScreen (with_nan (- (2 ^ 63))) \<lparr>X = 29, Y = 17\<rparr>"
    by (simp_all add: apple_tick_def)
  from stored_onScreen [OF tame_with_nan f r, of 0] l s0
  have b: "onScreen (with_nan 0) \<lparr>X = 12, Y = 12\<rparr>" "onScreen (with_nan 0) \<lparr>X = 28, Y = 17\<rparr>"
      "onScreen (with_nan 0) \<lparr>X = 14, Y = 17\<rparr>" "onScreen (with_nan 0) \<lparr>X = 29, Y = 17\<rparr>"
    by simp_all
  from tame_with_nan f r s1 s0 e y l a b show ?thesis by blast
qed


end
